theory Spec2Isabelle
  imports Main
begin

section \<open>pyctios: the CtiOs class of \<^verbatim>\<open>src/ctios/__init__.py\<close>\<close>

text \<open>
  The class sends batches of pseudo identifiers (posidents) to the CTI\_OS service and stores
  the answers in table \<^verbatim>\<open>OPSUB\<close> of an SQLite database. The embedding keeps one definition
  per method, under the method's name. Mutation of the object and of the database is explicit
  state passing; every exception of the source is a value of type \<open>error\<close>.
\<close>

subsection \<open>Strings\<close>

text \<open>
  Attribute names are the local names of XML tags of the service schema; they are taken to be
  ASCII, so \<^verbatim>\<open>str.upper\<close> acts on \<^verbatim>\<open>a\<close>..\<^verbatim>\<open>z\<close> only.
  The character class \<^verbatim>\<open>[A-Z]\<close> of \<^verbatim>\<open>re\<close> is the 26 ASCII capitals.
\<close>

definition upper_letters :: string where
  "upper_letters = ''ABCDEFGHIJKLMNOPQRSTUVWXYZ''"

definition lower_letters :: string where
  "lower_letters = ''abcdefghijklmnopqrstuvwxyz''"

definition is_AZ :: "char \<Rightarrow> bool" where
  "is_AZ c = (c \<in> set upper_letters)"

definition char_upper :: "char \<Rightarrow> char" where
  "char_upper c = (case map_of (zip lower_letters upper_letters) c of Some u \<Rightarrow> u | None \<Rightarrow> c)"

definition str_upper :: "string \<Rightarrow> string" where
  "str_upper s = map char_upper s"

text \<open>
  \<^verbatim>\<open>re.sub('([A-Z]{1})', r'_\1', xml_name)\<close>: the pattern matches one capital at a time,
  scanning left to right, and each match is replaced by an underscore followed by the match.
\<close>

fun re_sub_capital :: "string \<Rightarrow> string" where
  "re_sub_capital [] = []"
| "re_sub_capital (c # cs) =
     (if is_AZ c then CHR ''_'' # c # re_sub_capital cs else c # re_sub_capital cs)"

text \<open>\<^verbatim>\<open>CtiOs._transform_names\<close> (lines 211-224).\<close>

definition transform_names :: "string \<Rightarrow> string" where
  "transform_names xml_name = str_upper (re_sub_capital xml_name)"



subsection \<open>Exceptions\<close>

text \<open>
  Every failure of the source is \<^verbatim>\<open>CtiOsError\<close> with a message, a built-in Python exception,
  or the bare \<^verbatim>\<open>Exception("CONNECTION TO DATABASE FAILED")\<close> of line 320.
\<close>

datatype ctios_message =
    ServiceError              \<comment> \<open>\<^verbatim>\<open>"Service error: ..."\<close>, line 207\<close>
  | DatabaseError             \<comment> \<open>\<^verbatim>\<open>"Database error: ..."\<close>, line 136\<close>
  | EmptyResult               \<comment> \<open>\<^verbatim>\<open>"Query has an empty result!"\<close>, line 161\<close>
  | NameNotConvertible        \<comment> \<open>\<^verbatim>\<open>"XML ATTRIBUTE NAME CANNOT BE CONVERTED ..."\<close>, line 250\<close>

datatype error =
    CtiOsError ctios_message
  | ConnectionFailed          \<comment> \<open>\<^verbatim>\<open>Exception("CONNECTION TO DATABASE FAILED")\<close>\<close>
  | AttributeError
  | TypeError
  | ValueError
  | UnboundLocalError
  | ZeroDivisionError
  | ParseError                \<comment> \<open>\<^verbatim>\<open>xml.etree.ElementTree.ParseError\<close>\<close>
  | OSError
  | SqliteError               \<comment> \<open>\<^verbatim>\<open>sqlite3.Error\<close>, that is \<^verbatim>\<open>conn.Error\<close>\<close>

datatype 'a outcome = Returns 'a | Raises error

subsection \<open>The XML response\<close>

text \<open>
  An element of \<^verbatim>\<open>xml.etree.ElementTree\<close>: its tag in Clark notation
  (\<^verbatim>\<open>{namespace}local\<close>), its text (\<open>None\<close> for Python's \<^verbatim>\<open>None\<close>) and its children in
  document order.
\<close>

type_synonym cell = "string option"

datatype xml = Element (etag: string) (etext: cell) (echildren: "xml list")

text \<open>All proper descendants of an element, in document order (what \<^verbatim>\<open>.//\<close> ranges over).\<close>

fun descendants :: "xml \<Rightarrow> xml list" where
  "descendants (Element t x cs) = concat (map (\<lambda>c. c # descendants c) cs)"

text \<open>\<^verbatim>\<open>e.find('{ns}name')\<close>: the first child with that tag, or \<^verbatim>\<open>None\<close>.\<close>

definition find_child :: "string \<Rightarrow> xml \<Rightarrow> xml option" where
  "find_child t e = List.find (\<lambda>c. etag c = t) (echildren e)"

text \<open>\<^verbatim>\<open>e.find('.//{ns}name')\<close>: the first descendant with that tag, or \<^verbatim>\<open>None\<close>.\<close>

definition find_descendant :: "string \<Rightarrow> xml \<Rightarrow> xml option" where
  "find_descendant t e = List.find (\<lambda>c. etag c = t) (descendants e)"

text \<open>\<^verbatim>\<open>e.findall('.//{ns}name')\<close>: all descendants with that tag.\<close>

definition findall_descendants :: "string \<Rightarrow> xml \<Rightarrow> xml list" where
  "findall_descendants t e = filter (\<lambda>c. etag c = t) (descendants e)"

definition ns :: string where
  "ns = ''{http://katastr.cuzk.cz/ctios/types/v2.8}''"

definition os_tag :: string where "os_tag = ns @ ''os''"
definition chybaPOSIdent_tag :: string where "chybaPOSIdent_tag = ns @ ''chybaPOSIdent''"
definition pOSIdent_tag :: string where "pOSIdent_tag = ns @ ''pOSIdent''"
definition osId_tag :: string where "osId_tag = ns @ ''osId''"
definition osDetail_tag :: string where "osDetail_tag = ns @ ''osDetail''"

text \<open>
  \<^verbatim>\<open>tag[tag.index('}') + 1:]\<close>: what follows the first closing brace; \<^verbatim>\<open>index\<close> raises
  \<^verbatim>\<open>ValueError\<close> when the tag has none.
\<close>

definition local_name :: "string \<Rightarrow> string option" where
  "local_name t =
     (if CHR ''}'' \<in> set t then Some (tl (dropWhile (\<lambda>c. c \<noteq> CHR ''}'') t)) else None)"

text \<open>
  A Python \<^verbatim>\<open>dict\<close> as a list of pairs in insertion order: assigning to a key that is present
  replaces its value in place, a new key goes to the end.
\<close>

fun dict_set :: "'k \<Rightarrow> 'v \<Rightarrow> ('k \<times> 'v) list \<Rightarrow> ('k \<times> 'v) list" where
  "dict_set k v [] = [(k, v)]"
| "dict_set k v (p # ps) = (if fst p = k then (k, v) # ps else p # dict_set k v ps)"

subsection \<open>The store\<close>

text \<open>
  Table \<^verbatim>\<open>OPSUB\<close>: its column names in order and its rows, each a list of cells aligned with
  the columns (\<open>None\<close> is SQL \<^verbatim>\<open>NULL\<close>). SQLite compares column names without regard to
  ASCII case; Python's \<^verbatim>\<open>in\<close> on the list of names compares them exactly. Column names
  handed to \<^verbatim>\<open>UPDATE\<close> are taken to be plain SQL identifiers.
\<close>

record table =
  columns :: "string list"
  rows :: "cell list list"

definition same_column :: "string \<Rightarrow> string \<Rightarrow> bool" where
  "same_column a b = (str_upper a = str_upper b)"

fun col_index :: "string \<Rightarrow> string list \<Rightarrow> nat option" where
  "col_index c [] = None"
| "col_index c (d # ds) =
     (if same_column c d then Some 0 else map_option Suc (col_index c ds))"

definition cell_at :: "cell list \<Rightarrow> nat \<Rightarrow> cell" where
  "cell_at r i = (if i < length r then r ! i else None)"

text \<open>
  \<^verbatim>\<open>ALTER TABLE OPSUB ADD COLUMN c TEXT\<close>: SQLite refuses a duplicate column name; otherwise
  the column is appended and is \<^verbatim>\<open>NULL\<close> in every row.
\<close>

definition add_column :: "string \<Rightarrow> table \<Rightarrow> table option" where
  "add_column c t =
     (if col_index c (columns t) \<noteq> None then None
      else Some (t\<lparr>columns := columns t @ [c], rows := map (\<lambda>r. r @ [None]) (rows t)\<rparr>))"

text \<open>
  \<^verbatim>\<open>UPDATE OPSUB SET c = ? WHERE id = ?\<close> with parameters \<open>(v, p)\<close>: an error when the table
  has no column \<open>c\<close> or no column \<^verbatim>\<open>id\<close>; otherwise every row whose id cell equals \<open>p\<close> gets
  \<open>v\<close> in column \<open>c\<close>. A comparison with \<^verbatim>\<open>NULL\<close> selects no row.
\<close>

definition sql_update :: "string \<Rightarrow> cell \<Rightarrow> cell \<Rightarrow> table \<Rightarrow> table option" where
  "sql_update c v p t =
     (case col_index c (columns t) of
        None \<Rightarrow> None
      | Some j \<Rightarrow>
          (case col_index ''id'' (columns t) of
             None \<Rightarrow> None
           | Some i \<Rightarrow>
               Some (t\<lparr>rows := map (\<lambda>r. if p \<noteq> None \<and> cell_at r i = p then r[j := v] else r)
                                   (rows t)\<rparr>)))"

text \<open>\<^verbatim>\<open>SELECT ID FROM OPSUB\<close>: the id cell of every row, as \<^verbatim>\<open>fetchall\<close> returns them.\<close>

definition select_id :: "table \<Rightarrow> cell list option" where
  "select_id t =
     (case col_index ''ID'' (columns t) of
        None \<Rightarrow> None
      | Some i \<Rightarrow> Some (map (\<lambda>r. cell_at r i) (rows t)))"

text \<open>
  A connection inside the explicit transaction of lines 331-348: \<open>durable\<close> is what the
  database file holds, \<open>working\<close> what the connection sees. \<^verbatim>\<open>COMMIT\<close> makes the working
  table durable, \<^verbatim>\<open>ROLLBACK\<close> discards it, and closing the connection leaves the durable table.
\<close>

record connection =
  durable :: table
  working :: table

definition begin_transaction :: "table \<Rightarrow> connection" where
  "begin_transaction t = \<lparr>durable = t, working = t\<rparr>"

definition commit_transaction :: "connection \<Rightarrow> connection" where
  "commit_transaction c = c\<lparr>durable := working c\<rparr>"

definition rollback_transaction :: "connection \<Rightarrow> connection" where
  "rollback_transaction c = c\<lparr>working := durable c\<rparr>"

definition close_connection :: "connection \<Rightarrow> table" where
  "close_connection c = durable c"

subsection \<open>The object and its surroundings\<close>

text \<open>
  The run counters, the dictionary \<^verbatim>\<open>state_vector\<close> of \<^verbatim>\<open>set_log_file\<close> with its four keys.
\<close>

record counters =
  neplatny_identifikator :: int
  expirovany_identifikator :: int
  opravneny_subjekt_neexistuje :: int
  uspesne_stazeno :: int

datatype counter = Neplatny | Expirovany | Neexistuje | Uspesne

fun increment :: "counter \<Rightarrow> counters \<Rightarrow> counters" where
  "increment Neplatny v = v\<lparr>neplatny_identifikator := neplatny_identifikator v + 1\<rparr>"
| "increment Expirovany v = v\<lparr>expirovany_identifikator := expirovany_identifikator v + 1\<rparr>"
| "increment Neexistuje v =
     v\<lparr>opravneny_subjekt_neexistuje := opravneny_subjekt_neexistuje v + 1\<rparr>"
| "increment Uspesne v = v\<lparr>uspesne_stazeno := uspesne_stazeno v + 1\<rparr>"

definition total :: "counters \<Rightarrow> int" where
  "total v = uspesne_stazeno v + neplatny_identifikator v + expirovany_identifikator v
             + opravneny_subjekt_neexistuje v"

text \<open>
  The attributes of a \<^verbatim>\<open>CtiOs\<close> object that the methods below read. \<^verbatim>\<open>log_dir\<close> and
  \<^verbatim>\<open>state_vector\<close> are \<open>None\<close> while the attribute has not been assigned (reading it raises
  \<^verbatim>\<open>AttributeError\<close>); \<open>logging\<close> says whether \<^verbatim>\<open>self.logging\<close> has been assigned.
\<close>

record ctios =
  username :: string
  password :: string
  max_num :: int
  log_dir :: "string option"
  logging :: bool
  state_vector :: "counters option"

text \<open>
  \<^verbatim>\<open>CtiOs.__init__\<close> (lines 32-69), given the value \<^verbatim>\<open>Max_num\<close> of the configuration file:
  the constructor assigns neither \<^verbatim>\<open>log_dir\<close> nor \<^verbatim>\<open>logging\<close> nor \<^verbatim>\<open>state_vector\<close>.
\<close>

definition ctios_init :: "string \<Rightarrow> string \<Rightarrow> int \<Rightarrow> ctios" where
  "ctios_init u p m =
     \<lparr>username = u, password = p, max_num = m, log_dir = None, logging = False,
      state_vector = None\<rparr>"

text \<open>
  The request document. \<^verbatim>\<open>CtiOsTemplate.render\<close> is not among the source files at hand; the
  document is represented by the named values that line 183 hands to it.
\<close>

record request =
  req_username :: string
  req_password :: string
  posidents :: string

text \<open>
  What \<^verbatim>\<open>requests.post\<close> does: it raises \<^verbatim>\<open>RequestException\<close>, or it returns a text, which
  is kept as the tree that \<^verbatim>\<open>et.fromstring\<close> makes of it (\<open>None\<close> when the text is not
  well-formed XML).
\<close>

datatype reply = RequestException | Response "xml option"

text \<open>
  The surroundings of a run: the service, which may answer the \<open>n\<close>-th request of a run as it
  likes, and the dictionary that \<^verbatim>\<open>CtiOsCsv.read_csv_as_dictionary\<close> (not among the source
  files at hand) returns for the attribute map file, \<open>None\<close> when reading it raises.
\<close>

record env =
  service :: "nat \<Rightarrow> request \<Rightarrow> reply"
  attribute_map :: "(string \<rightharpoonup> string) option"

text \<open>
  The state a run changes: the object, table \<^verbatim>\<open>OPSUB\<close> of the database at \<^verbatim>\<open>db_path\<close>
  (\<open>None\<close> when the database has no such table), and the batches for which the service has
  been called so far, in order. An identifier is the one-column row that \<^verbatim>\<open>fetchall\<close> returns,
  kept as its cell.
\<close>

record state =
  obj :: ctios
  db :: "table option"
  calls :: "cell list list"

text \<open>\<^verbatim>\<open>if self.log_dir: self.logging.info(...)\<close>, at any level: the message itself is not kept.\<close>

definition log_if_log_dir :: "ctios \<Rightarrow> unit outcome" where
  "log_if_log_dir self =
     (case log_dir self of
        None \<Rightarrow> Raises AttributeError
      | Some d \<Rightarrow> if d \<noteq> [] \<and> \<not> logging self then Raises AttributeError else Returns ())"

text \<open>\<^verbatim>\<open>CtiOs.set_log_file\<close> (lines 409-446). The flag says whether \<^verbatim>\<open>logging.basicConfig\<close>
  succeeds in opening the log file; \<^verbatim>\<open>self.log_dir\<close> is assigned before that.\<close>

definition zero_counters :: counters where
  "zero_counters =
     \<lparr>neplatny_identifikator = 0, expirovany_identifikator = 0,
      opravneny_subjekt_neexistuje = 0, uspesne_stazeno = 0\<rparr>"

definition set_log_file :: "bool \<Rightarrow> string \<Rightarrow> ctios \<Rightarrow> unit outcome \<times> ctios" where
  "set_log_file basicConfig_ok d self =
     (let self1 = self\<lparr>log_dir := Some d\<rparr>
      in if \<not> basicConfig_ok then (Raises OSError, self1)
         else (Returns (), self1\<lparr>logging := True, state_vector := Some zero_counters\<rparr>))"

subsection \<open>Reading the identifiers\<close>

text \<open>
  A \<^verbatim>\<open>SELECT\<close> statement is kept as what it denotes on table \<^verbatim>\<open>OPSUB\<close>: the one-column rows
  it returns, or \<open>None\<close> when SQLite raises. \<^verbatim>\<open>sqlite3.connect\<close> itself is taken to succeed
  (\<^verbatim>\<open>set_db\<close> has checked that the file exists). \<^verbatim>\<open>list(set(ids))\<close> removes duplicates and
  leaves the order open; \<open>remdups\<close> picks one order, and nothing below depends on which.
\<close>

definition get_ids_from_db :: "(table \<Rightarrow> cell list option) \<Rightarrow> state \<Rightarrow> cell list outcome" where
  "get_ids_from_db sql s =
     (case db s of
        None \<Rightarrow> Raises (CtiOsError DatabaseError)
      | Some t \<Rightarrow>
          (case sql t of
             None \<Rightarrow> Raises (CtiOsError DatabaseError)
           | Some ids \<Rightarrow> Returns (remdups ids)))"

text \<open>\<^verbatim>\<open>CtiOs.set_ids_from_db\<close> (lines 140-163).\<close>

definition set_ids_from_db ::
  "(table \<Rightarrow> cell list option) option \<Rightarrow> state \<Rightarrow> cell list outcome" where
  "set_ids_from_db sql s =
     (case get_ids_from_db (case sql of None \<Rightarrow> select_id | Some q \<Rightarrow> q) s of
        Raises e \<Rightarrow> Raises e
      | Returns ids \<Rightarrow>
          if length ids \<le> 1 then Raises (CtiOsError EmptyResult) else Returns ids)"

subsection \<open>Request and service call\<close>

text \<open>\<^verbatim>\<open>"{}".format(i[0])\<close> for the cell of a row: \<^verbatim>\<open>None\<close> prints as \<^verbatim>\<open>None\<close>.\<close>

definition format_cell :: "cell \<Rightarrow> string" where
  "format_cell c = (case c of None \<Rightarrow> ''None'' | Some x \<Rightarrow> x)"

text \<open>\<^verbatim>\<open>CtiOs._draw_up_xml_request\<close> (lines 165-187).\<close>

definition draw_up_xml_request :: "ctios \<Rightarrow> cell list \<Rightarrow> request" where
  "draw_up_xml_request self ids =
     \<lparr>req_username = username self, req_password = password self,
      posidents = concat (map (\<lambda>i. ''<v2:pOSIdent>'' @ format_cell i @ ''</v2:pOSIdent>'') ids)\<rparr>"

text \<open>\<^verbatim>\<open>CtiOs._call_service\<close> (lines 189-209), as the \<open>n\<close>-th call of the run.\<close>

definition call_service :: "env \<Rightarrow> nat \<Rightarrow> request \<Rightarrow> xml option outcome" where
  "call_service e n request_xml =
     (case service e n request_xml of
        RequestException \<Rightarrow> Raises (CtiOsError ServiceError)
      | Response response_xml \<Rightarrow> Returns response_xml)"

subsection \<open>Processing the response\<close>

text \<open>
  The local variables \<^verbatim>\<open>posident\<close> and \<^verbatim>\<open>osid\<close> of \<^verbatim>\<open>_save_attributes_to_db\<close>: they live
  across the iterations of the loop over the records, \<open>None\<close> while unbound.
\<close>

record locals =
  posident :: "cell option"
  osid :: "cell option"

text \<open>
  A recognised error (lines 272-275, 277-280, 283-286): the counter, the log line, and
  \<^verbatim>\<open>continue\<close>, which is the result \<open>True\<close>.
\<close>

definition count_and_continue :: "counter \<Rightarrow> ctios \<Rightarrow> bool outcome \<times> ctios" where
  "count_and_continue k self =
     (case state_vector self of
        None \<Rightarrow> (Raises AttributeError, self)
      | Some v \<Rightarrow>
          (let self1 = self\<lparr>state_vector := Some (increment k v)\<rparr>
           in case log_if_log_dir self1 of
                Raises e \<Rightarrow> (Raises e, self1)
              | Returns u \<Rightarrow> (Returns True, self1)))"

text \<open>
  Lines 268-288. The result \<open>True\<close> is \<^verbatim>\<open>continue\<close>; \<open>False\<close> means that control goes on
  to line 290. An error marker with none of the three texts leaves the chain of \<^verbatim>\<open>if\<close>s
  without \<^verbatim>\<open>continue\<close> and without a counter.
\<close>

definition classify :: "xml \<Rightarrow> locals \<Rightarrow> ctios \<Rightarrow> bool outcome \<times> locals \<times> ctios" where
  "classify os l self =
     (case find_child chybaPOSIdent_tag os of
        None \<Rightarrow>
          (case state_vector self of
             None \<Rightarrow> (Raises AttributeError, l, self)
           | Some v \<Rightarrow> (Returns False, l, self\<lparr>state_vector := Some (increment Uspesne v)\<rparr>))
      | Some chyba \<Rightarrow>
          (case find_child pOSIdent_tag os of
             None \<Rightarrow> (Raises AttributeError, l, self)
           | Some p \<Rightarrow>
               (let l1 = l\<lparr>posident := Some (etext p)\<rparr>
                in if etext chyba = Some ''NEPLATNY_IDENTIFIKATOR''
                   then (case count_and_continue Neplatny self of (r, self1) \<Rightarrow> (r, l1, self1))
                   else if etext chyba = Some ''EXPIROVANY_IDENTIFIKATOR''
                   then (case count_and_continue Expirovany self of (r, self1) \<Rightarrow> (r, l1, self1))
                   else if etext chyba = Some ''OPRAVNENY_SUBJEKT_NEEXISTUJE''
                   then (case count_and_continue Neexistuje self of (r, self1) \<Rightarrow> (r, l1, self1))
                   else (Returns False, l1, self))))"

text \<open>
  Lines 291-298: for a child tagged \<^verbatim>\<open>pOSIdent\<close> (\<^verbatim>\<open>osId\<close>) the variable gets the text of the
  first child with that tag; with no such child it keeps what it had.
\<close>

definition bind_ids :: "xml \<Rightarrow> locals \<Rightarrow> locals" where
  "bind_ids os l =
     (let l1 = (case find_child pOSIdent_tag os of
                  None \<Rightarrow> l
                | Some p \<Rightarrow> l\<lparr>posident := Some (etext p)\<rparr>)
      in case find_child osId_tag os of
           None \<Rightarrow> l1
         | Some ou \<Rightarrow> l1\<lparr>osid := Some (etext ou)\<rparr>)"

text \<open>
  Lines 300-303: \<^verbatim>\<open>xml_attributes\<close>. Iterating over \<^verbatim>\<open>None\<close>, when the record has no
  \<^verbatim>\<open>osDetail\<close>, raises \<^verbatim>\<open>TypeError\<close>. The value is the text of the first descendant of the
  record with the child's tag.
\<close>

fun xml_attributes_loop ::
  "xml \<Rightarrow> xml list \<Rightarrow> (string \<times> cell) list \<Rightarrow> (string \<times> cell) list outcome" where
  "xml_attributes_loop os [] acc = Returns acc"
| "xml_attributes_loop os (child # rest) acc =
     (case find_descendant (etag child) os of
        None \<Rightarrow> Raises AttributeError
      | Some e \<Rightarrow>
          (case local_name (etag child) of
             None \<Rightarrow> Raises ValueError
           | Some k \<Rightarrow> xml_attributes_loop os rest (dict_set k (etext e) acc)))"

definition xml_attributes :: "xml \<Rightarrow> (string \<times> cell) list outcome" where
  "xml_attributes os =
     (case find_descendant osDetail_tag os of
        None \<Rightarrow> Raises TypeError
      | Some d \<Rightarrow> xml_attributes_loop os (echildren d) [])"

text \<open>
  The handler of lines 315-320: the log line, then \<^verbatim>\<open>Exception("CONNECTION TO DATABASE FAILED")\<close>.
\<close>

definition connection_failed :: "ctios \<Rightarrow> 'a outcome" where
  "connection_failed self =
     (case log_if_log_dir self of Raises e \<Rightarrow> Raises e | Returns u \<Rightarrow> Raises ConnectionFailed)"

text \<open>
  Lines 306-320: the column names of \<^verbatim>\<open>select * from OPSUB\<close>, and \<^verbatim>\<open>ALTER TABLE\<close> when
  \<^verbatim>\<open>'OS_ID'\<close> is not among them. The statement runs outside any transaction, so it is durable
  at once. \<^verbatim>\<open>col_names\<close> is the list read before the column was added.
\<close>

definition check_os_id_column :: "ctios \<Rightarrow> table option \<Rightarrow> (string list \<times> table) outcome" where
  "check_os_id_column self d =
     (case d of
        None \<Rightarrow> connection_failed self
      | Some t \<Rightarrow>
          (let col_names = columns t
           in if ''OS_ID'' \<notin> set col_names
              then (case add_column ''OS_ID'' t of
                      None \<Rightarrow> connection_failed self
                    | Some t1 \<Rightarrow> Returns (col_names, t1))
              else Returns (col_names, t)))"

text \<open>\<^verbatim>\<open>CtiOs._transform_names_dict\<close> (lines 226-250): any exception while reading the file or
  looking the key up ends in the handler of lines 247-250.\<close>

definition transform_names_dict :: "env \<Rightarrow> ctios \<Rightarrow> string \<Rightarrow> string outcome" where
  "transform_names_dict e self xml_name =
     (case (case attribute_map e of None \<Rightarrow> None | Some dictionary \<Rightarrow> dictionary xml_name) of
        Some database_name \<Rightarrow> Returns database_name
      | None \<Rightarrow>
          (case log_if_log_dir self of
             Raises a \<Rightarrow> Raises a
           | Returns u \<Rightarrow> Raises (CtiOsError NameNotConvertible)))"

text \<open>Lines 325-327: the column name for one attribute name.\<close>

definition database_name_of :: "env \<Rightarrow> ctios \<Rightarrow> string list \<Rightarrow> string \<Rightarrow> string outcome" where
  "database_name_of e self col_names xml_name =
     (let database_name = transform_names xml_name
      in if database_name \<notin> set col_names then transform_names_dict e self xml_name
         else Returns database_name)"

text \<open>Lines 323-328: \<^verbatim>\<open>database_attributes\<close>.\<close>

fun database_attributes ::
  "env \<Rightarrow> ctios \<Rightarrow> string list \<Rightarrow> (string \<times> cell) list \<Rightarrow> (string \<times> cell) list
   \<Rightarrow> (string \<times> cell) list outcome" where
  "database_attributes e self col_names [] acc = Returns acc"
| "database_attributes e self col_names ((xml_name, xml_value) # rest) acc =
     (case database_name_of e self col_names xml_name of
        Raises a \<Rightarrow> Raises a
      | Returns database_name \<Rightarrow>
          database_attributes e self col_names rest (dict_set database_name xml_value acc))"

text \<open>
  Lines 334-335: the \<^verbatim>\<open>UPDATE\<close> of each attribute in turn, on the working table. The result
  is the exception that ended the loop, if any, with the connection as it was then.
\<close>

fun update_columns ::
  "(string \<times> cell) list \<Rightarrow> locals \<Rightarrow> connection \<Rightarrow> error option \<times> connection" where
  "update_columns [] l c = (None, c)"
| "update_columns ((dat_name, dat_value) # rest) l c =
     (case posident l of
        None \<Rightarrow> (Some UnboundLocalError, c)
      | Some p \<Rightarrow>
          (case sql_update dat_name dat_value p (working c) of
             None \<Rightarrow> (Some SqliteError, c)
           | Some t \<Rightarrow> update_columns rest l (c\<lparr>working := t\<rparr>)))"

text \<open>Lines 333-337: \<^verbatim>\<open>BEGIN\<close>, the updates, the update of \<^verbatim>\<open>OS_ID\<close>, \<^verbatim>\<open>COMMIT\<close>.\<close>

definition update_transaction ::
  "(string \<times> cell) list \<Rightarrow> locals \<Rightarrow> table \<Rightarrow> error option \<times> connection" where
  "update_transaction attrs l t =
     (case update_columns attrs l (begin_transaction t) of
        (Some e, c) \<Rightarrow> (Some e, c)
      | (None, c) \<Rightarrow>
          (case osid l of
             None \<Rightarrow> (Some UnboundLocalError, c)
           | Some ou \<Rightarrow>
               (case posident l of
                  None \<Rightarrow> (Some UnboundLocalError, c)
                | Some p \<Rightarrow>
                    (case sql_update ''OS_ID'' ou p (working c) of
                       None \<Rightarrow> (Some SqliteError, c)
                     | Some t1 \<Rightarrow> (None, commit_transaction (c\<lparr>working := t1\<rparr>))))))"

text \<open>
  Lines 331-348. \<^verbatim>\<open>except conn.Error\<close> rolls back and closes, and does not raise again; any
  other exception leaves through \<^verbatim>\<open>finally\<close>, which closes the connection. The result is the
  table that the database holds afterwards.
\<close>

definition persist ::
  "ctios \<Rightarrow> (string \<times> cell) list \<Rightarrow> locals \<Rightarrow> table \<Rightarrow> unit outcome \<times> table" where
  "persist self attrs l t =
     (case update_transaction attrs l t of
        (None, c) \<Rightarrow>
          (case log_if_log_dir self of
             Raises a \<Rightarrow> (Raises a, close_connection c)
           | Returns u \<Rightarrow> (Returns (), close_connection c))
      | (Some e, c) \<Rightarrow>
          if e = SqliteError then (Returns (), close_connection (rollback_transaction c))
          else (Raises e, close_connection c))"

text \<open>One iteration of the loop of line 265, lines 266-348.\<close>

definition process_os :: "env \<Rightarrow> xml \<Rightarrow> locals \<Rightarrow> state \<Rightarrow> unit outcome \<times> locals \<times> state" where
  "process_os e os l s =
     (case classify os l (obj s) of
        (Raises a, l1, self1) \<Rightarrow> (Raises a, l1, s\<lparr>obj := self1\<rparr>)
      | (Returns continue, l1, self1) \<Rightarrow>
          if continue then (Returns (), l1, s\<lparr>obj := self1\<rparr>)
          else
            (let s1 = s\<lparr>obj := self1\<rparr>; l2 = bind_ids os l1
             in case xml_attributes os of
                  Raises a \<Rightarrow> (Raises a, l2, s1)
                | Returns attrs \<Rightarrow>
                    (case check_os_id_column (obj s1) (db s1) of
                       Raises a \<Rightarrow> (Raises a, l2, s1)
                     | Returns (col_names, t) \<Rightarrow>
                         (let s2 = s1\<lparr>db := Some t\<rparr>
                          in case database_attributes e (obj s2) col_names attrs [] of
                               Raises a \<Rightarrow> (Raises a, l2, s2)
                             | Returns dattrs \<Rightarrow>
                                 (case persist (obj s2) dattrs l2 t of
                                    (r, t1) \<Rightarrow> (r, l2, s2\<lparr>db := Some t1\<rparr>))))))"

fun process_records :: "env \<Rightarrow> xml list \<Rightarrow> locals \<Rightarrow> state \<Rightarrow> unit outcome \<times> state" where
  "process_records e [] l s = (Returns (), s)"
| "process_records e (os # rest) l s =
     (case process_os e os l s of
        (Raises a, l1, s1) \<Rightarrow> (Raises a, s1)
      | (Returns u, l1, s1) \<Rightarrow> process_records e rest l1 s1)"

text \<open>
  \<^verbatim>\<open>CtiOs._save_attributes_to_db\<close> (lines 252-350). The result is \<^verbatim>\<open>state_vector\<close> when
  \<^verbatim>\<open>log_dir\<close> is true, else \<^verbatim>\<open>None\<close>.
\<close>

definition save_attributes_to_db ::
  "env \<Rightarrow> xml option \<Rightarrow> state \<Rightarrow> counters option outcome \<times> state" where
  "save_attributes_to_db e response_xml s =
     (case response_xml of
        None \<Rightarrow> (Raises ParseError, s)
      | Some root \<Rightarrow>
          (case process_records e (findall_descendants os_tag root)
                  \<lparr>posident = None, osid = None\<rparr> s of
             (Raises a, s1) \<Rightarrow> (Raises a, s1)
           | (Returns u, s1) \<Rightarrow>
               (case log_dir (obj s1) of
                  None \<Rightarrow> (Raises AttributeError, s1)
                | Some d \<Rightarrow>
                    if d \<noteq> [] then
                      (case state_vector (obj s1) of
                         None \<Rightarrow> (Raises AttributeError, s1)
                       | Some v \<Rightarrow> (Returns (Some v), s1))
                    else (Returns None, s1))))"

subsection \<open>The run\<close>

text \<open>\<^verbatim>\<open>CtiOs._query_service\<close> (lines 352-362). The batch is appended to \<open>calls\<close> when the
  request is posted.\<close>

definition query_service :: "env \<Rightarrow> cell list \<Rightarrow> state \<Rightarrow> unit outcome \<times> state" where
  "query_service e ids s =
     (let request_xml = draw_up_xml_request (obj s) ids;
          s1 = s\<lparr>calls := calls s @ [ids]\<rparr>
      in case call_service e (length (calls s)) request_xml of
           Raises a \<Rightarrow> (Raises a, s1)
         | Returns response_xml \<Rightarrow>
             (case save_attributes_to_db e response_xml s1 of
                (Raises a, s2) \<Rightarrow> (Raises a, s2)
              | (Returns v, s2) \<Rightarrow> (Returns (), s2)))"

text \<open>
  A bound of a Python slice on a list of length \<open>n\<close>: a negative bound counts from the end,
  and every bound is clamped to the list.
\<close>

definition py_bound :: "int \<Rightarrow> nat \<Rightarrow> nat" where
  "py_bound i n = (if i < 0 then nat (max 0 (i + int n)) else min (nat i) n)"

text \<open>\<^verbatim>\<open>xs[start: end]\<close>.\<close>

definition py_slice :: "'a list \<Rightarrow> int \<Rightarrow> int \<Rightarrow> 'a list" where
  "py_slice xs start end' =
     (let a = py_bound start (length xs); b = py_bound end' (length xs)
      in take (b - a) (drop a xs))"

text \<open>Lines 382-386: the loop over \<^verbatim>\<open>range(0, full_arrays)\<close>, given the values of \<open>i\<close> ahead.\<close>

fun query_full_arrays ::
  "env \<Rightarrow> cell list \<Rightarrow> nat list \<Rightarrow> state \<Rightarrow> unit outcome \<times> state" where
  "query_full_arrays e ids [] s = (Returns (), s)"
| "query_full_arrays e ids (i # rest) s =
     (let start = int i * max_num (obj s);
          end' = int i * max_num (obj s) + max_num (obj s);
          whole_ids = py_slice ids start end'
      in case query_service e whole_ids s of
           (Raises a, s1) \<Rightarrow> (Raises a, s1)
         | (Returns u, s1) \<Rightarrow> query_full_arrays e ids rest s1)"

text \<open>Lines 399-407: the four counters go to the log when \<^verbatim>\<open>log_dir\<close> is true.\<close>

definition log_counters :: "state \<Rightarrow> unit outcome \<times> state" where
  "log_counters s =
     (case log_dir (obj s) of
        None \<Rightarrow> (Raises AttributeError, s)
      | Some d \<Rightarrow>
          if d \<noteq> [] \<and> (\<not> logging (obj s) \<or> state_vector (obj s) = None)
          then (Raises AttributeError, s)
          else (Returns (), s))"

text \<open>The log line of lines 377-378 and 396-397, then lines 399-407.\<close>

definition log_summary :: "state \<Rightarrow> unit outcome \<times> state" where
  "log_summary s =
     (case log_if_log_dir (obj s) of
        Raises a \<Rightarrow> (Raises a, s)
      | Returns u \<Rightarrow> log_counters s)"

text \<open>
  \<^verbatim>\<open>CtiOs.query_requests\<close> (lines 364-407). \<^verbatim>\<open>math.floor(len(ids) / self._max_num)\<close> divides
  floating-point numbers; for lengths below \<open>2^53\<close> the result is the integer quotient rounded
  down, which is \<open>div\<close>. Python's \<^verbatim>\<open>%\<close> has the sign of the divisor, as \<open>mod\<close> has.
  Division by a zero \<^verbatim>\<open>Max_num\<close> raises \<^verbatim>\<open>ZeroDivisionError\<close>.
\<close>

definition query_requests :: "env \<Rightarrow> cell list \<Rightarrow> state \<Rightarrow> unit outcome \<times> state" where
  "query_requests e ids s =
     (case log_if_log_dir (obj s) of
        Raises a \<Rightarrow> (Raises a, s)
      | Returns u \<Rightarrow>
          if int (length ids) \<le> max_num (obj s) then
            (case query_service e ids s of
               (Raises a, s1) \<Rightarrow> (Raises a, s1)
             | (Returns u1, s1) \<Rightarrow> log_summary s1)
          else if max_num (obj s) = 0 then (Raises ZeroDivisionError, s)
          else
            (let full_arrays = int (length ids) div max_num (obj s);
                 rest = int (length ids) mod max_num (obj s)
             in case query_full_arrays e ids [0..<nat full_arrays] s of
                  (Raises a, s1) \<Rightarrow> (Raises a, s1)
                | (Returns u1, s1) \<Rightarrow>
                    (let ids_rest = py_slice ids (int (length ids) - rest) (int (length ids))
                     in if ids_rest \<noteq> [] then
                          (case query_service e ids_rest s1 of
                             (Raises a, s2) \<Rightarrow> (Raises a, s2)
                           | (Returns u2, s2) \<Rightarrow> log_summary s2)
                        else log_summary s1)))"

subsection \<open>What a run leaves alone\<close>

text \<open>
  Two values of the object that differ at most in the counters, and of which either both have
  the attribute \<^verbatim>\<open>state_vector\<close> or neither has.
\<close>

definition only_counted :: "ctios \<Rightarrow> ctios \<Rightarrow> bool" where
  "only_counted self self1 =
     (username self1 = username self \<and> password self1 = password self
      \<and> max_num self1 = max_num self \<and> log_dir self1 = log_dir self
      \<and> logging self1 = logging self
      \<and> (state_vector self1 = None) = (state_vector self = None))"


subsection \<open>Notions for stating the properties\<close>

text \<open>
  All updates of a list made one after the other, each as \<^verbatim>\<open>UPDATE OPSUB SET n = v WHERE id = p\<close>;
  \<open>None\<close> when one of them fails.
\<close>

fun applied :: "(string \<times> cell) list \<Rightarrow> cell \<Rightarrow> table \<Rightarrow> table option" where
  "applied [] p t = Some t"
| "applied ((n, v) # rest) p t =
     (case sql_update n v p t of None \<Rightarrow> None | Some t1 \<Rightarrow> applied rest p t1)"




text \<open>
  The outcome of a record as lines 268-288 tell it from the error marker: a success without a
  marker, one of the three failures by the text of the marker, and \<open>None\<close> for a marker with
  any other text. \<open>counter_value\<close> reads the counter of an outcome.
\<close>

definition kind_of :: "xml \<Rightarrow> counter option" where
  "kind_of os =
     (case find_child chybaPOSIdent_tag os of
        None \<Rightarrow> Some Uspesne
      | Some chyba \<Rightarrow>
          if etext chyba = Some ''NEPLATNY_IDENTIFIKATOR'' then Some Neplatny
          else if etext chyba = Some ''EXPIROVANY_IDENTIFIKATOR'' then Some Expirovany
          else if etext chyba = Some ''OPRAVNENY_SUBJEKT_NEEXISTUJE'' then Some Neexistuje
          else None)"

fun counter_value :: "counter \<Rightarrow> counters \<Rightarrow> int" where
  "counter_value Neplatny v = neplatny_identifikator v"
| "counter_value Expirovany v = expirovany_identifikator v"
| "counter_value Neexistuje v = opravneny_subjekt_neexistuje v"
| "counter_value Uspesne v = uspesne_stazeno v"

subsection \<open>Concrete inputs\<close>

text \<open>An object on which \<^verbatim>\<open>set_log_file('log')\<close> has returned, with \<^verbatim>\<open>Max_num\<close> 2.\<close>

definition logged_object :: ctios where
  "logged_object =
     \<lparr>username = ''user'', password = ''secret'', max_num = 2, log_dir = Some ''log'',
      logging = True, state_vector = Some zero_counters\<rparr>"

text \<open>A service that answers every request with a document that holds no record.\<close>

definition no_records :: xml where
  "no_records = Element ''Envelope'' None []"

definition empty_service :: "nat \<Rightarrow> request \<Rightarrow> reply" where
  "empty_service n r = Response (Some no_records)"

text \<open>An attribute map file with the one line that maps \<^verbatim>\<open>StavDat\<close> to \<^verbatim>\<open>STAV_DATUM\<close>.\<close>

definition stav_map :: "string \<rightharpoonup> string" where
  "stav_map = [''StavDat'' \<mapsto> ''STAV_DATUM'']"

definition stav_env :: env where
  "stav_env = \<lparr>service = empty_service, attribute_map = Some stav_map\<rparr>"

text \<open>A table of three rows with the columns \<^verbatim>\<open>ID\<close>, \<^verbatim>\<open>STAV_DAT\<close> and \<^verbatim>\<open>NAZEV\<close>.\<close>

definition opsub3 :: table where
  "opsub3 =
     \<lparr>columns = [''ID'', ''STAV_DAT'', ''NAZEV''],
      rows = [[Some ''101'', None, None], [Some ''102'', None, None],
              [Some ''103'', None, None]]\<rparr>"

text \<open>A table in which two rows have the same identifier.\<close>

definition dup_table :: table where
  "dup_table = \<lparr>columns = [''ID'', ''NAZEV''],
      rows = [[Some ''101'', None], [Some ''101'', Some ''x'']]\<rparr>"

text \<open>
  Records of a response: a success with the identifier, the record id of the service and the
  attributes of \<^verbatim>\<open>osDetail\<close>; and an error with the identifier and the text of the marker.
\<close>

definition success_record :: "string \<Rightarrow> string \<Rightarrow> (string \<times> string) list \<Rightarrow> xml" where
  "success_record p ou attrs =
     Element os_tag None
       [Element pOSIdent_tag (Some p) [], Element osId_tag (Some ou) [],
        Element osDetail_tag None (map (\<lambda>(k, v). Element (ns @ k) (Some v) []) attrs)]"

definition error_record :: "string \<Rightarrow> string \<Rightarrow> xml" where
  "error_record p code =
     Element os_tag None
       [Element pOSIdent_tag (Some p) [], Element chybaPOSIdent_tag (Some code) []]"

definition response_of :: "xml list \<Rightarrow> xml" where
  "response_of records = Element ''Envelope'' None [Element ''Body'' None records]"

text \<open>
  The identifiers 101, 102 and 103, and a service that answers the first request with the
  records of 101 and 102 and any later request with the record of 103.
\<close>

definition ids3 :: "cell list" where
  "ids3 = [Some ''101'', Some ''102'', Some ''103'']"

definition service3 :: "nat \<Rightarrow> request \<Rightarrow> reply" where
  "service3 n r =
     Response (Some (response_of
       (if n = 0
        then [success_record ''101'' ''os-101'' [(''stavDat'', ''a''), (''nazev'', ''Alfa'')],
              success_record ''102'' ''os-102'' [(''stavDat'', ''b''), (''nazev'', ''Beta'')]]
        else [success_record ''103'' ''os-103'' [(''stavDat'', ''c''), (''nazev'', ''Gama'')]])))"

definition env3 :: env where
  "env3 = \<lparr>service = service3, attribute_map = Some stav_map\<rparr>"

text \<open>The state before a run on table \<open>opsub3\<close>.\<close>

definition start3 :: state where
  "start3 = \<lparr>obj = logged_object, db = Some opsub3, calls = []\<rparr>"

text \<open>An object as the constructor leaves it, and the state before a run with it.\<close>

definition fresh_object :: ctios where
  "fresh_object = ctios_init ''user'' ''secret'' 2"

definition fresh_start :: state where
  "fresh_start = \<lparr>obj = fresh_object, db = Some opsub3, calls = []\<rparr>"

text \<open>
  An attribute map that sends \<^verbatim>\<open>druh\<close> to \<^verbatim>\<open>DRUH_OS\<close>, a column that table \<open>opsub3\<close> does
  not have, so that the \<^verbatim>\<open>UPDATE\<close> of that column fails. The service answers the first
  request with the records of 101 and 102, the second of which has the attribute \<^verbatim>\<open>druh\<close>
  after \<^verbatim>\<open>stavDat\<close>, and any later request with the record of 103.
\<close>

definition fault_map :: "string \<rightharpoonup> string" where
  "fault_map = [''druh'' \<mapsto> ''DRUH_OS'']"

definition record_101 :: xml where
  "record_101 = success_record ''101'' ''os-101'' [(''stavDat'', ''a''), (''nazev'', ''Alfa'')]"

definition record_102_fault :: xml where
  "record_102_fault = success_record ''102'' ''os-102'' [(''stavDat'', ''b''), (''druh'', ''z'')]"

definition record_103 :: xml where
  "record_103 = success_record ''103'' ''os-103'' [(''stavDat'', ''c''), (''nazev'', ''Gama'')]"

definition fault_service :: "nat \<Rightarrow> request \<Rightarrow> reply" where
  "fault_service n r =
     Response (Some (response_of (if n = 0 then [record_101, record_102_fault] else [record_103])))"

definition fault_env :: env where
  "fault_env = \<lparr>service = fault_service, attribute_map = Some fault_map\<rparr>"

text \<open>Table \<open>opsub3\<close> once the record of 101 has been stored.\<close>

definition opsub4 :: table where
  "opsub4 =
     \<lparr>columns = [''ID'', ''STAV_DAT'', ''NAZEV'', ''OS_ID''],
      rows = [[Some ''101'', Some ''a'', Some ''Alfa'', Some ''os-101''],
              [Some ''102'', None, None, None],
              [Some ''103'', None, None, None]]\<rparr>"

definition start4 :: state where
  "start4 = \<lparr>obj = logged_object, db = Some opsub4, calls = []\<rparr>"

definition locals_102 :: locals where
  "locals_102 = \<lparr>posident = Some (Some ''102''), osid = Some (Some ''os-102'')\<rparr>"

definition unbound :: locals where
  "unbound = \<lparr>posident = None, osid = None\<rparr>"

text \<open>
  A response of three records: a success, an invalid identifier, and a success whose
  attribute \<^verbatim>\<open>druh\<close> cannot be stored.
\<close>

definition mixed_service :: "nat \<Rightarrow> request \<Rightarrow> reply" where
  "mixed_service n r =
     Response (Some (response_of
       [record_101, error_record ''102'' ''NEPLATNY_IDENTIFIKATOR'',
        success_record ''103'' ''os-103'' [(''druh'', ''z'')]]))"

definition mixed_env :: env where
  "mixed_env = \<lparr>service = mixed_service, attribute_map = Some fault_map\<rparr>"

text \<open>
  A record with an error marker that has none of the three texts: once with the record id
  and the details that a success carries, once with nothing but the marker.
\<close>

definition unknown_record_full :: xml where
  "unknown_record_full =
     Element os_tag None
       [Element pOSIdent_tag (Some ''102'') [],
        Element chybaPOSIdent_tag (Some ''JINA_CHYBA'') [],
        Element osId_tag (Some ''os-102'') [],
        Element osDetail_tag None [Element (ns @ ''stavDat'') (Some ''b'') []]]"

definition unknown_full_env :: env where
  "unknown_full_env =
     \<lparr>service = (\<lambda>n r. Response (Some (response_of [record_101, unknown_record_full]))),
      attribute_map = Some fault_map\<rparr>"

definition unknown_bare_env :: env where
  "unknown_bare_env =
     \<lparr>service = (\<lambda>n r. Response (Some (response_of
                   [record_101, error_record ''102'' ''JINA_CHYBA'']))),
      attribute_map = Some fault_map\<rparr>"

definition ids2 :: "cell list" where
  "ids2 = [Some ''101'', Some ''102'']"


section \<open>Properties\<close>

subsection \<open>The mechanical transliteration\<close>











subsection \<open>Translating attribute names\<close>

lemma database_attributes_Raises:
  assumes "database_name_of e self cols x = Raises a"
  shows "\<exists>b. database_attributes e self cols (before @ (x, v) # rest) acc = Raises b"
  using assms
proof (induction before arbitrary: acc)
  case Nil
  then show ?case by simp
next
  case (Cons p before)
  obtain y w where p: "p = (y, w)" by (cases p)
  show ?case
  proof (cases "database_name_of e self cols y")
    case (Returns n)
    then show ?thesis using Cons p by simp
  next
    case (Raises b)
    then show ?thesis using p by simp
  qed
qed

text \<open>
  Claim C7. The column name of an attribute is found in two stages: the transliterated name
  when the table has a column of that name; otherwise the value that the attribute map holds
  for the name as the service spells it. With neither, the step raises (\<^verbatim>\<open>CtiOsError\<close> with
  the message of line 250 when the log line before it goes through), and so does the loop
  that translates the attributes of a record, whatever else the record holds: the attribute
  is not skipped.
\<close>

theorem database_name_two_stage:
  "(transform_names x \<in> set cols \<longrightarrow>
      database_name_of e self cols x = Returns (transform_names x))
   \<and> (transform_names x \<notin> set cols \<longrightarrow> attribute_map e = Some d \<longrightarrow> d x = Some n \<longrightarrow>
      database_name_of e self cols x = Returns n)
   \<and> (transform_names x \<notin> set cols \<longrightarrow>
      (attribute_map e = None \<or> (\<exists>d. attribute_map e = Some d \<and> d x = None)) \<longrightarrow>
      (\<exists>a. database_name_of e self cols x = Raises a
           \<and> (log_if_log_dir self = Returns () \<longrightarrow> a = CtiOsError NameNotConvertible))
      \<and> (\<forall>before v rest acc.
            \<exists>a. database_attributes e self cols (before @ (x, v) # rest) acc = Raises a))"
proof (intro conjI impI)
  assume "transform_names x \<in> set cols"
  then show "database_name_of e self cols x = Returns (transform_names x)"
    by (simp add: database_name_of_def)
next
  assume "transform_names x \<notin> set cols" "attribute_map e = Some d" "d x = Some n"
  then show "database_name_of e self cols x = Returns n"
    by (simp add: database_name_of_def transform_names_dict_def)
next
  assume miss: "transform_names x \<notin> set cols"
    and none: "attribute_map e = None \<or> (\<exists>d. attribute_map e = Some d \<and> d x = None)"
  from none have look:
    "(case attribute_map e of None \<Rightarrow> None | Some dictionary \<Rightarrow> dictionary x) = None"
    by auto
  show r: "\<exists>a. database_name_of e self cols x = Raises a
           \<and> (log_if_log_dir self = Returns () \<longrightarrow> a = CtiOsError NameNotConvertible)"
    using miss look
    by (cases "log_if_log_dir self") (simp_all add: database_name_of_def transform_names_dict_def)
  then obtain a where "database_name_of e self cols x = Raises a" by blast
  then show "\<forall>before v rest acc.
            \<exists>a. database_attributes e self cols (before @ (x, v) # rest) acc = Raises a"
    using database_attributes_Raises by blast
qed

text \<open>
  \<^verbatim>\<open>nazev\<close> is found in the first stage; \<^verbatim>\<open>StavDat\<close>, for which the table has no column, is
  mapped to \<^verbatim>\<open>STAV_DATUM\<close>; \<^verbatim>\<open>jmeno\<close> is in neither and raises.
\<close>

theorem database_name_StavDat:
  "transform_names ''nazev'' \<in> set (columns opsub3)
   \<and> database_name_of stav_env logged_object (columns opsub3) ''nazev'' = Returns ''NAZEV''
   \<and> transform_names ''StavDat'' \<notin> set (columns opsub3)
   \<and> attribute_map stav_env = Some stav_map \<and> stav_map ''StavDat'' = Some ''STAV_DATUM''
   \<and> database_name_of stav_env logged_object (columns opsub3) ''StavDat'' = Returns ''STAV_DATUM''
   \<and> transform_names ''jmeno'' \<notin> set (columns opsub3) \<and> stav_map ''jmeno'' = None
   \<and> database_name_of stav_env logged_object (columns opsub3) ''jmeno''
       = Raises (CtiOsError NameNotConvertible)
   \<and> database_attributes stav_env logged_object (columns opsub3)
        [(''nazev'', Some ''A''), (''jmeno'', Some ''B'')] []
       = Raises (CtiOsError NameNotConvertible)"
proof -
  have c: "transform_names ''nazev'' \<in> set (columns opsub3)
      \<and> transform_names ''StavDat'' \<notin> set (columns opsub3)
      \<and> transform_names ''jmeno'' \<notin> set (columns opsub3)"
    by code_simp
  have n: "transform_names ''nazev'' = ''NAZEV''"
    by code_simp
  have m: "attribute_map stav_env = Some stav_map \<and> stav_map ''StavDat'' = Some ''STAV_DATUM''
      \<and> stav_map ''jmeno'' = None"
    by (simp add: stav_env_def stav_map_def)
  have l: "log_if_log_dir logged_object = Returns ()"
    by (simp add: log_if_log_dir_def logged_object_def)
  have a: "database_attributes stav_env logged_object (columns opsub3)
        [(''nazev'', Some ''A''), (''jmeno'', Some ''B'')] []
       = Raises (CtiOsError NameNotConvertible)"
    by code_simp
  show ?thesis
    using c m l a
      database_name_two_stage [of "''nazev''" "columns opsub3" stav_env logged_object]
      database_name_two_stage [of "''StavDat''" "columns opsub3" stav_env logged_object
        stav_map "''STAV_DATUM''"]
      database_name_two_stage [of "''jmeno''" "columns opsub3" stav_env logged_object]
    by (simp add: n)
qed


subsection \<open>Reading the identifiers\<close>

text \<open>
  Claim C8. \<^verbatim>\<open>set_ids_from_db\<close> raises \<^verbatim>\<open>CtiOsError("Query has an empty result!")\<close> exactly
  when the statement could be run and selected fewer than two different identifiers. What it
  returns has no duplicates, has at least two elements, and holds exactly the identifiers that
  the statement selected; with no statement given these are the id cells of all rows.
\<close>

theorem set_ids_from_db_result:
  "(set_ids_from_db sql s = Raises (CtiOsError EmptyResult)
      \<longleftrightarrow> (\<exists>t sel. db s = Some t
            \<and> (case sql of None \<Rightarrow> select_id | Some q \<Rightarrow> q) t = Some sel
            \<and> card (set sel) < 2))
   \<and> (set_ids_from_db sql s = Returns ids \<longrightarrow>
        distinct ids \<and> 2 \<le> length ids
        \<and> (\<exists>t sel. db s = Some t
              \<and> (case sql of None \<Rightarrow> select_id | Some q \<Rightarrow> q) t = Some sel
              \<and> set ids = set sel))
   \<and> (set_ids_from_db None s = Returns ids \<longrightarrow>
        (\<exists>t i. db s = Some t \<and> col_index ''ID'' (columns t) = Some i
              \<and> set ids = (\<lambda>r. cell_at r i) ` set (rows t)))"
proof -
  have empty: "set_ids_from_db sql s = Raises (CtiOsError EmptyResult)
      \<longleftrightarrow> (\<exists>t sel. db s = Some t
            \<and> (case sql of None \<Rightarrow> select_id | Some q \<Rightarrow> q) t = Some sel
            \<and> card (set sel) < 2)"
    by (auto simp: set_ids_from_db_def get_ids_from_db_def card_set
        split: option.splits outcome.splits)
  have some: "distinct ids \<and> 2 \<le> length ids
        \<and> (\<exists>t sel. db s = Some t
              \<and> (case sql of None \<Rightarrow> select_id | Some q \<Rightarrow> q) t = Some sel
              \<and> set ids = set sel)"
    if "set_ids_from_db sql s = Returns ids"
    using that
    by (auto simp: set_ids_from_db_def get_ids_from_db_def
        split: option.splits outcome.splits if_splits)
  have all: "\<exists>t i. db s = Some t \<and> col_index ''ID'' (columns t) = Some i
              \<and> set ids = (\<lambda>r. cell_at r i) ` set (rows t)"
    if "set_ids_from_db None s = Returns ids"
    using that
    by (auto simp: set_ids_from_db_def get_ids_from_db_def select_id_def
        split: option.splits outcome.splits if_splits)
  show ?thesis using empty some all by blast
qed

text \<open>
  Two rows with the same identifier, and a statement that selects nothing, are rejected; three
  different identifiers are returned.
\<close>

theorem set_ids_from_db_examples:
  "set_ids_from_db None \<lparr>obj = logged_object, db = Some dup_table, calls = []\<rparr>
     = Raises (CtiOsError EmptyResult)
   \<and> select_id dup_table = Some [Some ''101'', Some ''101'']
   \<and> card (set [Some ''101'', Some ''101'' :: cell]) < 2
   \<and> set_ids_from_db None \<lparr>obj = logged_object, db = Some opsub3, calls = []\<rparr>
     = Returns [Some ''101'', Some ''102'', Some ''103'']
   \<and> set_ids_from_db (Some (\<lambda>t. Some [])) \<lparr>obj = logged_object, db = Some opsub3, calls = []\<rparr>
     = Raises (CtiOsError EmptyResult)"
proof -
  have a: "set_ids_from_db None \<lparr>obj = logged_object, db = Some dup_table, calls = []\<rparr>
     = Raises (CtiOsError EmptyResult)
    \<and> select_id dup_table = Some [Some ''101'', Some ''101'']"
    by code_simp
  have b: "set_ids_from_db None \<lparr>obj = logged_object, db = Some opsub3, calls = []\<rparr>
     = Returns [Some ''101'', Some ''102'', Some ''103'']"
    by code_simp
  have c: "set_ids_from_db (Some (\<lambda>t. Some [])) \<lparr>obj = logged_object, db = Some opsub3, calls = []\<rparr>
     = Raises (CtiOsError EmptyResult)"
    by code_simp
  show ?thesis
    using a b c
      set_ids_from_db_result [of None "\<lparr>obj = logged_object, db = Some dup_table, calls = []\<rparr>"
        "[Some ''101'', Some ''102'', Some ''103'']"]
      set_ids_from_db_result [of None "\<lparr>obj = logged_object, db = Some opsub3, calls = []\<rparr>"
        "[Some ''101'', Some ''102'', Some ''103'']"]
    by simp
qed


subsection \<open>What a run leaves alone\<close>

lemma only_counted_refl: "only_counted self self"
  by (simp add: only_counted_def)

lemma only_counted_trans:
  "only_counted a b \<Longrightarrow> only_counted b c \<Longrightarrow> only_counted a c"
  by (simp add: only_counted_def)

lemma count_and_continue_frame:
  "count_and_continue k self = (r, self1) \<Longrightarrow> only_counted self self1"
  by (auto simp: count_and_continue_def only_counted_def Let_def
      split: option.splits outcome.splits)

lemma classify_frame:
  "classify os l self = (r, l1, self1) \<Longrightarrow> only_counted self self1"
  by (auto simp: classify_def only_counted_def Let_def
      split: option.splits if_splits prod.splits dest!: count_and_continue_frame)

lemma process_os_frame:
  assumes "process_os e os l s = (r, l1, s1)"
  shows "only_counted (obj s) (obj s1) \<and> calls s1 = calls s"
proof -
  obtain rc lc selfc where c: "classify os l (obj s) = (rc, lc, selfc)"
    by (cases "classify os l (obj s)") auto
  then have "only_counted (obj s) selfc" by (rule classify_frame)
  then show ?thesis
    using assms c
    by (auto simp: process_os_def Let_def
        split: outcome.splits if_splits prod.splits)
qed

lemma process_records_frame:
  "process_records e oss l s = (r, s1) \<Longrightarrow>
     only_counted (obj s) (obj s1) \<and> calls s1 = calls s"
proof (induction oss arbitrary: l s)
  case Nil
  then show ?case by (simp add: only_counted_refl)
next
  case (Cons os oss)
  obtain r0 l0 s0 where p: "process_os e os l s = (r0, l0, s0)"
    by (cases "process_os e os l s") auto
  note f = process_os_frame [OF p]
  show ?case
  proof (cases r0)
    case (Returns u)
    with Cons.prems p have "process_records e oss l0 s0 = (r, s1)" by simp
    from Cons.IH [OF this] f show ?thesis by (auto intro: only_counted_trans)
  next
    case (Raises a)
    with Cons.prems p f show ?thesis by auto
  qed
qed

lemma save_attributes_to_db_frame:
  "save_attributes_to_db e response_xml s = (r, s1) \<Longrightarrow>
     only_counted (obj s) (obj s1) \<and> calls s1 = calls s"
  by (auto simp: save_attributes_to_db_def only_counted_refl
      split: option.splits outcome.splits prod.splits if_splits
      dest!: process_records_frame)

lemma query_service_frame:
  "query_service e ids s = (r, s1) \<Longrightarrow>
     only_counted (obj s) (obj s1) \<and> calls s1 = calls s @ [ids]"
  by (auto simp: query_service_def Let_def only_counted_refl
      split: outcome.splits prod.splits
      dest!: save_attributes_to_db_frame)


subsection \<open>Batches\<close>

lemma py_slice_nat: "py_slice xs (int a) (int b) = take (b - a) (drop a xs)"
proof -
  have "take (min b (length xs) - min a (length xs)) (drop (min a (length xs)) xs)
        = take (b - a) (drop a xs)"
    by (cases "a \<le> length xs"; cases "b \<le> length xs") (simp_all add: min_def)
  then show ?thesis by (simp add: py_slice_def py_bound_def Let_def)
qed

lemma concat_full_slices:
  "concat (map (\<lambda>i. take m (drop (i * m) xs)) [0..<q]) = take (q * m) xs"
proof (induction q)
  case 0
  show ?case by simp
next
  case (Suc q)
  have "take (q * m + m) xs = take (q * m) xs @ take m (drop (q * m) xs)"
    by (simp add: take_add)
  with Suc show ?case by (simp add: add.commute)
qed

lemma log_summary_state: "log_summary s = (r, s1) \<Longrightarrow> s1 = s"
  by (auto simp: log_summary_def log_counters_def split: outcome.splits option.splits if_splits)


lemma query_full_arrays_calls:
  assumes "query_full_arrays e ids is s = (r, s1)"
  shows "only_counted (obj s) (obj s1)
         \<and> (\<exists>k\<le>length is.
              calls s1 = calls s @ map (\<lambda>i. py_slice ids (int i * max_num (obj s))
                                             (int i * max_num (obj s) + max_num (obj s)))
                                       (take k is)
              \<and> (r = Returns () \<longrightarrow> k = length is))"
  using assms
proof (induction "is" arbitrary: s)
  case Nil
  then show ?case by (simp add: only_counted_refl)
next
  case (Cons i "is")
  let ?b = "py_slice ids (int i * max_num (obj s)) (int i * max_num (obj s) + max_num (obj s))"
  obtain r0 s0 where q: "query_service e ?b s = (r0, s0)"
    by (cases "query_service e ?b s") auto
  from query_service_frame [OF q]
  have f: "only_counted (obj s) (obj s0)" and c: "calls s0 = calls s @ [?b]" by auto
  from f have m: "max_num (obj s0) = max_num (obj s)" by (simp add: only_counted_def)
  show ?case
  proof (cases r0)
    case (Raises a)
    with Cons.prems q have "s1 = s0" and "r = Raises a" by (simp_all add: Let_def)
    with f show ?thesis by (intro conjI exI [of _ "Suc 0"]) (simp_all add: c)
  next
    case (Returns u)
    with Cons.prems q have "query_full_arrays e ids is s0 = (r, s1)" by (simp add: Let_def)
    from Cons.IH [OF this] obtain k where k: "k \<le> length is"
      and f1: "only_counted (obj s0) (obj s1)"
      and c1: "calls s1 = calls s0 @ map (\<lambda>i. py_slice ids (int i * max_num (obj s0))
                                             (int i * max_num (obj s0) + max_num (obj s0)))
                                       (take k is)"
      and r1: "r = Returns () \<longrightarrow> k = length is"
      by blast
    show ?thesis
    proof (intro conjI exI [of _ "Suc k"])
      show "only_counted (obj s) (obj s1)" using f f1 by (rule only_counted_trans)
      show "Suc k \<le> length (i # is)" using k by simp
      show "calls s1 = calls s @ map (\<lambda>i. py_slice ids (int i * max_num (obj s))
                                             (int i * max_num (obj s) + max_num (obj s)))
                                       (take (Suc k) (i # is))"
        using c c1 m by simp
      show "r = Returns () \<longrightarrow> Suc k = length (i # is)" using r1 by simp
    qed
  qed
qed

lemma full_slice_length:
  fixes m i :: nat
  assumes "i < length xs div m"
  shows "length (take m (drop (i * m) xs)) = m"
proof -
  from assms have "Suc i \<le> length xs div m" by simp
  then have "Suc i * m \<le> length xs div m * m" by (rule mult_le_mono1)
  also have "\<dots> \<le> length xs" by simp
  finally show ?thesis by simp
qed

lemma count_batches:
  fixes m n :: nat
  assumes "0 < m"
  shows "n div m + (if n mod m = 0 then 0 else 1) = (n + m - 1) div m"
proof (cases "n mod m = 0")
  case True
  then have "m dvd n" by (simp add: dvd_eq_mod_eq_0)
  then obtain k where n: "n = k * m" by (auto simp: dvd_def mult.commute)
  have "m * k \<le> k * m + m - 1" and "k * m + m - 1 < m * Suc k"
    using assms by (simp_all add: mult.commute)
  then have "(k * m + m - 1) div m = k" by (rule div_nat_eqI)
  then show ?thesis using True n assms by simp
next
  case False
  define q where "q = n div m"
  define t where "t = n mod m"
  have n: "n = q * m + t" by (simp add: q_def t_def)
  have t: "0 < t" "t < m" using False assms by (simp_all add: t_def)
  have "n + m - 1 = Suc q * m + (t - 1)" using n t by simp
  moreover have "m * Suc q \<le> Suc q * m + (t - 1)" and "Suc q * m + (t - 1) < m * Suc (Suc q)"
    using t by (simp_all add: mult.commute)
  ultimately have "(n + m - 1) div m = Suc q" by (simp add: div_nat_eqI)
  then show ?thesis using False by (simp add: q_def)
qed

lemma partition_properties:
  fixes m :: nat
  assumes m: "0 < m" and ne: "xs \<noteq> []"
    and bs: "bs = (if length xs \<le> m then [xs]
                   else map (\<lambda>i. take m (drop (i * m) xs)) [0..<length xs div m]
                        @ (if length xs mod m = 0 then []
                           else [drop (length xs div m * m) xs]))"
  shows "concat bs = xs"
    and "\<forall>b\<in>set bs. b \<noteq> [] \<and> length b \<le> m"
    and "\<forall>b\<in>set (butlast bs). length b = m"
    and "length bs = (length xs + m - 1) div m"
proof -
  let ?q = "length xs div m"
  have rest: "length (drop (?q * m) xs) = length xs mod m"
    by (simp add: minus_mod_eq_div_mult [symmetric])
  show "concat bs = xs"
  proof (cases "length xs \<le> m")
    case True
    then show ?thesis by (simp add: bs)
  next
    case False
    have "drop (?q * m) xs = []" if "length xs mod m = 0"
      using that rest by simp
    then show ?thesis using False by (auto simp: bs concat_full_slices)
  qed
  show "\<forall>b\<in>set bs. b \<noteq> [] \<and> length b \<le> m"
  proof (cases "length xs \<le> m")
    case True
    then show ?thesis using ne by (simp add: bs)
  next
    case False
    have "length (drop (?q * m) xs) \<le> m" using m rest by (simp add: less_imp_le)
    moreover have "drop (?q * m) xs \<noteq> []" if "length xs mod m \<noteq> 0"
      using that rest by auto
    moreover have "take m (drop (i * m) xs) \<noteq> [] \<and> length (take m (drop (i * m) xs)) \<le> m"
      if "i < ?q" for i
      using full_slice_length [OF that] m by auto
    ultimately show ?thesis using False unfolding bs by auto
  qed
  show "\<forall>b\<in>set (butlast bs). length b = m"
  proof (cases "length xs \<le> m")
    case True
    then show ?thesis by (simp add: bs)
  next
    case False
    have "set (butlast bs) \<subseteq> set (map (\<lambda>i. take m (drop (i * m) xs)) [0..<?q])"
      using False by (auto simp: bs butlast_append dest: in_set_butlastD)
    then show ?thesis using full_slice_length by fastforce
  qed
  show "length bs = (length xs + m - 1) div m"
  proof (cases "length xs \<le> m")
    case True
    have "0 < length xs" using ne by simp
    then have "m \<le> length xs + m - 1" and "length xs + m - 1 < m * Suc 1"
      using True m by arith+
    then have "(length xs + m - 1) div m = 1"
      by (intro div_nat_eqI) simp_all
    then show ?thesis using True by (simp add: bs)
  next
    case False
    have "length bs = length xs div m + (if length xs mod m = 0 then 0 else 1)"
      using False by (simp add: bs)
    then show ?thesis using count_batches [OF m, of "length xs"] by simp
  qed
qed


text \<open>
  Claim C1, as amended. For a list of identifiers that is not empty and a positive
  \<^verbatim>\<open>Max_num\<close>, there are batches \<open>bs\<close> such that: their concatenation is the list, so
  that every identifier is in exactly one batch and in its place; no batch is empty and none
  is longer than \<^verbatim>\<open>Max_num\<close>; every batch but the last has exactly \<^verbatim>\<open>Max_num\<close> identifiers;
  their number is the length of the list divided by \<^verbatim>\<open>Max_num\<close>, rounded up; the service
  is called for a prefix of \<open>bs\<close>, one call per batch in order, and for all of \<open>bs\<close> when
  the run returns.
\<close>

theorem query_requests_batches:
  assumes M: "0 < max_num (obj s)" and ne: "ids \<noteq> []"
    and run: "query_requests e ids s = (r, s1)"
  shows "\<exists>bs k. concat bs = ids
           \<and> (\<forall>b\<in>set bs. b \<noteq> [] \<and> int (length b) \<le> max_num (obj s))
           \<and> (\<forall>b\<in>set (butlast bs). int (length b) = max_num (obj s))
           \<and> length bs = (length ids + nat (max_num (obj s)) - 1) div nat (max_num (obj s))
           \<and> calls s1 = calls s @ take k bs
           \<and> (r = Returns () \<longrightarrow> calls s1 = calls s @ bs)"
proof -
  define m where "m = nat (max_num (obj s))"
  define q where "q = length ids div m"
  define full where "full = map (\<lambda>i. take m (drop (i * m) ids)) [0..<q]"
  define bs where "bs = (if length ids \<le> m then [ids]
                         else full @ (if length ids mod m = 0 then [] else [drop (q * m) ids]))"
  have m: "0 < m" and Mm: "max_num (obj s) = int m" using M by (simp_all add: m_def)
  have bs': "bs = (if length ids \<le> m then [ids]
                   else map (\<lambda>i. take m (drop (i * m) ids)) [0..<length ids div m]
                        @ (if length ids mod m = 0 then []
                           else [drop (length ids div m * m) ids]))"
    by (simp add: bs_def full_def q_def)
  note P = partition_properties [OF m ne bs']
  have slice: "py_slice ids (int i * max_num (obj s)) (int i * max_num (obj s) + max_num (obj s))
               = take m (drop (i * m) ids)" for i
  proof -
    have "int i * int m = int (i * m)" and "int i * int m + int m = int (i * m + m)" by simp_all
    then show ?thesis unfolding Mm by (simp only: py_slice_nat) simp
  qed
  have rest: "py_slice ids (int (length ids) - int (length ids) mod max_num (obj s))
                (int (length ids)) = drop (q * m) ids"
  proof -
    have "int (length ids) - int (length ids) mod int m = int (q * m)"
      by (simp add: q_def zmod_int [symmetric] minus_mod_eq_div_mult [symmetric] of_nat_diff)
    then have "py_slice ids (int (length ids) - int (length ids) mod int m) (int (length ids))
               = take (length ids - q * m) (drop (q * m) ids)"
      by (simp only: py_slice_nat)
    then show ?thesis unfolding Mm by simp
  qed
  have restlen: "drop (q * m) ids \<noteq> [] \<longleftrightarrow> length ids mod m \<noteq> 0"
  proof -
    have "length (drop (q * m) ids) = length ids mod m"
      by (simp add: q_def minus_mod_eq_div_mult [symmetric])
    then show ?thesis by (metis length_0_conv)
  qed
  have R: "\<exists>k. calls s1 = calls s @ take k bs \<and> (r = Returns () \<longrightarrow> calls s1 = calls s @ bs)"
  proof (cases "log_if_log_dir (obj s)")
    case (Raises a)
    with run have "s1 = s" and "r = Raises a" by (simp_all add: query_requests_def)
    then show ?thesis by (intro exI [of _ 0]) simp
  next
    case (Returns u)
    show ?thesis
    proof (cases "length ids \<le> m")
      case True
      obtain r0 s0 where q0: "query_service e ids s = (r0, s0)"
        by (cases "query_service e ids s") auto
      from query_service_frame [OF q0] have c0: "calls s0 = calls s @ [ids]" by simp
      have "s1 = s0"
        using run Returns True q0 Mm
        by (cases r0) (auto simp: query_requests_def dest: log_summary_state)
      then show ?thesis using c0 True by (intro exI [of _ 1]) (simp add: bs_def)
    next
      case False
      then have big: "\<not> int (length ids) \<le> max_num (obj s)" and nz: "max_num (obj s) \<noteq> 0"
        using m by (simp_all add: Mm)
      have qn: "nat (int (length ids) div max_num (obj s)) = q"
        by (simp add: Mm q_def zdiv_int [symmetric])
      obtain r0 s0 where f0: "query_full_arrays e ids [0..<q] s = (r0, s0)"
        by (cases "query_full_arrays e ids [0..<q] s") auto
      from query_full_arrays_calls [OF f0]
      have "\<exists>k\<le>q. calls s0 = calls s @ map (\<lambda>i. take m (drop (i * m) ids)) (take k [0..<q])
                   \<and> (r0 = Returns () \<longrightarrow> k = q)"
        by (simp add: slice)
      then obtain k where k: "k \<le> q"
        and c0: "calls s0 = calls s @ map (\<lambda>i. take m (drop (i * m) ids)) (take k [0..<q])"
        and r0: "r0 = Returns () \<longrightarrow> k = q"
        by blast
      have c0': "calls s0 = calls s @ take k full"
        using c0 by (simp add: full_def take_map)
      show ?thesis
      proof (cases r0)
        case (Raises a)
        with run Returns big nz qn f0 have "s1 = s0" and "r = Raises a"
          by (simp_all add: query_requests_def Let_def)
        moreover have "take k bs = take k full"
          using k False by (simp add: bs_def full_def)
        ultimately show ?thesis using c0' by (intro exI [of _ k]) simp
      next
        case (Returns u0)
        with r0 have kq: "k = q" by simp
        then have cf: "calls s0 = calls s @ full" using c0' by (simp add: full_def)
        show ?thesis
        proof (cases "length ids mod m = 0")
          case True
          then have "drop (q * m) ids = []" using restlen by simp
          then have "s1 = s0"
            using run \<open>log_if_log_dir (obj s) = Returns u\<close> big nz qn f0 Returns rest
            by (auto simp: query_requests_def Let_def dest: log_summary_state)
          then show ?thesis
            using cf True False by (intro exI [of _ "length bs"]) (simp add: bs_def)
        next
          case nonzero: False
          then have ne': "drop (q * m) ids \<noteq> []" using restlen by simp
          obtain r2 s2 where q2: "query_service e (drop (q * m) ids) s0 = (r2, s2)"
            by (cases "query_service e (drop (q * m) ids) s0") auto
          from query_service_frame [OF q2]
          have c2: "calls s2 = calls s0 @ [drop (q * m) ids]" by simp
          have "s1 = s2"
            using run \<open>log_if_log_dir (obj s) = Returns u\<close> big nz qn f0 Returns rest ne' q2
            by (cases r2) (auto simp: query_requests_def Let_def dest: log_summary_state)
          then show ?thesis
            using cf c2 nonzero False by (intro exI [of _ "length bs"]) (simp add: bs_def)
        qed
      qed
    qed
  qed
  from R obtain k where "calls s1 = calls s @ take k bs"
    and "r = Returns () \<longrightarrow> calls s1 = calls s @ bs" by blast
  moreover have "\<forall>b\<in>set bs. b \<noteq> [] \<and> int (length b) \<le> max_num (obj s)"
    using P(2) by (simp add: Mm)
  moreover have "\<forall>b\<in>set (butlast bs). int (length b) = max_num (obj s)"
    using P(3) by (simp add: Mm)
  moreover have "length bs = (length ids + nat (max_num (obj s)) - 1) div nat (max_num (obj s))"
    using P(4) by (simp add: m_def)
  ultimately show ?thesis using P(1) by blast
qed


text \<open>
  The identifiers 101, 102 and 103 with \<^verbatim>\<open>Max_num\<close> 2: the run returns after two calls of
  the service, for 101 and 102 and then for 103.
\<close>

theorem query_requests_three_ids:
  "0 < max_num (obj start3) \<and> ids3 \<noteq> []
   \<and> fst (query_requests env3 ids3 start3) = Returns ()
   \<and> calls (snd (query_requests env3 ids3 start3))
       = [[Some ''101'', Some ''102''], [Some ''103'']]"
proof -
  have run: "0 < max_num (obj start3) \<and> ids3 \<noteq> []
   \<and> fst (query_requests env3 ids3 start3) = Returns ()
   \<and> calls (snd (query_requests env3 ids3 start3))
       = [[Some ''101'', Some ''102''], [Some ''103'']]"
    by code_simp
  then show ?thesis
    using query_requests_batches [of start3 ids3 env3 "fst (query_requests env3 ids3 start3)"
      "snd (query_requests env3 ids3 start3)"]
    by simp
qed

text \<open>
  Claim C1 as it stands fails on the code: for the empty list, line 375 holds and line 376
  calls the service for the whole list, which is one batch with no identifier in it.
\<close>

theorem query_requests_empty_batch:
  "fst (query_requests stav_env [] start3) = Returns ()
   \<and> calls (snd (query_requests stav_env [] start3)) = [[]]"
  by code_simp


subsection \<open>The log file comes first\<close>

lemma query_full_arrays_frame:
  "query_full_arrays e ids is s = (r, s1) \<Longrightarrow> only_counted (obj s) (obj s1)"
  using query_full_arrays_calls by blast

lemma query_requests_frame:
  assumes "query_requests e ids s = (r, s1)"
  shows "only_counted (obj s) (obj s1)"
proof (cases "log_if_log_dir (obj s)")
  case (Raises a)
  with assms show ?thesis by (simp add: query_requests_def only_counted_refl)
next
  case (Returns u)
  show ?thesis
  proof (cases "int (length ids) \<le> max_num (obj s)")
    case True
    obtain r0 s0 where q0: "query_service e ids s = (r0, s0)"
      by (cases "query_service e ids s") auto
    from query_service_frame [OF q0] have f: "only_counted (obj s) (obj s0)" by simp
    have "s1 = s0"
      using assms Returns True q0
      by (cases r0) (auto simp: query_requests_def dest: log_summary_state)
    with f show ?thesis by simp
  next
    case False
    show ?thesis
    proof (cases "max_num (obj s) = 0")
      case True
      with assms Returns False show ?thesis
        by (simp add: query_requests_def only_counted_refl)
    next
      case nz: False
      let ?is = "[0..<nat (int (length ids) div max_num (obj s))]"
      let ?rest = "py_slice ids (int (length ids) - int (length ids) mod max_num (obj s))
                     (int (length ids))"
      obtain r0 s0 where f0: "query_full_arrays e ids ?is s = (r0, s0)"
        by (cases "query_full_arrays e ids ?is s") auto
      from query_full_arrays_frame [OF f0] have f: "only_counted (obj s) (obj s0)" .
      obtain r2 s2 where q2: "query_service e ?rest s0 = (r2, s2)"
        by (cases "query_service e ?rest s0") auto
      from query_service_frame [OF q2] have f2: "only_counted (obj s0) (obj s2)" by simp
      have "s1 = s0 \<or> s1 = s2"
        using assms Returns False nz f0 q2
        by (cases r0; cases r2; cases "?rest = []")
          (auto simp: query_requests_def Let_def dest: log_summary_state)
      then show ?thesis using f f2 by (auto intro: only_counted_trans)
    qed
  qed
qed

text \<open>
  Claim C10. On an object whose \<^verbatim>\<open>log_dir\<close> has not been assigned, \<^verbatim>\<open>query_requests\<close> raises
  \<^verbatim>\<open>AttributeError\<close> and leaves the state as it was: the service has not been called and the
  table is untouched. The constructor assigns neither \<^verbatim>\<open>log_dir\<close> nor \<^verbatim>\<open>state_vector\<close>, and a
  run of \<^verbatim>\<open>query_requests\<close> neither assigns \<^verbatim>\<open>log_dir\<close> nor creates or removes
  \<^verbatim>\<open>state_vector\<close>. A call of \<^verbatim>\<open>set_log_file\<close> that returns leaves \<^verbatim>\<open>log_dir\<close> assigned and
  all four counters zero.
\<close>

theorem query_requests_needs_set_log_file:
  "(log_dir (obj s) = None \<longrightarrow> query_requests e ids s = (Raises AttributeError, s))
   \<and> log_dir (ctios_init u p m) = None \<and> state_vector (ctios_init u p m) = None
   \<and> (query_requests e ids s = (r, s1) \<longrightarrow>
        log_dir (obj s1) = log_dir (obj s)
        \<and> (state_vector (obj s1) = None) = (state_vector (obj s) = None))
   \<and> (set_log_file basicConfig_ok d self = (Returns (), self1) \<longrightarrow>
        log_dir self1 = Some d \<and> state_vector self1 = Some zero_counters
        \<and> neplatny_identifikator zero_counters = 0 \<and> expirovany_identifikator zero_counters = 0
        \<and> opravneny_subjekt_neexistuje zero_counters = 0 \<and> uspesne_stazeno zero_counters = 0)"
proof -
  have a: "query_requests e ids s = (Raises AttributeError, s)" if "log_dir (obj s) = None"
    using that by (simp add: query_requests_def log_if_log_dir_def)
  have b: "log_dir (ctios_init u p m) = None \<and> state_vector (ctios_init u p m) = None"
    by (simp add: ctios_init_def)
  have c: "log_dir (obj s1) = log_dir (obj s)
        \<and> (state_vector (obj s1) = None) = (state_vector (obj s) = None)"
    if "query_requests e ids s = (r, s1)"
    using query_requests_frame [OF that] by (simp add: only_counted_def)
  have d: "log_dir self1 = Some d \<and> state_vector self1 = Some zero_counters
        \<and> neplatny_identifikator zero_counters = 0 \<and> expirovany_identifikator zero_counters = 0
        \<and> opravneny_subjekt_neexistuje zero_counters = 0 \<and> uspesne_stazeno zero_counters = 0"
    if "set_log_file basicConfig_ok d self = (Returns (), self1)"
    using that by (auto simp: set_log_file_def Let_def zero_counters_def split: if_splits)
  show ?thesis using a b c d by blast
qed


text \<open>
  A run on an object fresh from the constructor raises at once. \<^verbatim>\<open>set_log_file\<close> on that
  object, and again on the object that a run has left with three successes counted, gives
  the object with all counters zero.
\<close>

theorem set_log_file_examples:
  "log_dir (obj fresh_start) = None
   \<and> query_requests env3 ids3 fresh_start = (Raises AttributeError, fresh_start)
   \<and> set_log_file True ''log'' fresh_object = (Returns (), logged_object)
   \<and> state_vector (obj (snd (query_requests env3 ids3 start3)))
       = Some (zero_counters\<lparr>uspesne_stazeno := 3\<rparr>)
   \<and> log_dir (obj (snd (query_requests env3 ids3 start3))) = Some ''log''
   \<and> set_log_file True ''log'' (obj (snd (query_requests env3 ids3 start3)))
       = (Returns (), logged_object)"
proof -
  have ev: "log_dir (obj fresh_start) = None
   \<and> query_requests env3 ids3 fresh_start = (Raises AttributeError, fresh_start)
   \<and> set_log_file True ''log'' fresh_object = (Returns (), logged_object)
   \<and> state_vector (obj (snd (query_requests env3 ids3 start3)))
       = Some (zero_counters\<lparr>uspesne_stazeno := 3\<rparr>)
   \<and> log_dir (obj (snd (query_requests env3 ids3 start3))) = Some ''log''
   \<and> set_log_file True ''log'' (obj (snd (query_requests env3 ids3 start3)))
       = (Returns (), logged_object)"
    by code_simp
  then show ?thesis
    using query_requests_needs_set_log_file [of fresh_start env3 ids3 "''user''" "''secret''" 2
        "Raises AttributeError" fresh_start True "''log''" fresh_object logged_object]
      query_requests_needs_set_log_file [of start3 env3 ids3 "''user''" "''secret''" 2
        "fst (query_requests env3 ids3 start3)" "snd (query_requests env3 ids3 start3)"
        True "''log''" "obj (snd (query_requests env3 ids3 start3))" logged_object]
    by simp
qed


subsection \<open>The transaction of a record\<close>

lemma sql_update_columns: "sql_update c v p t = Some t1 \<Longrightarrow> columns t1 = columns t"
  by (auto simp: sql_update_def split: option.splits)

lemma applied_columns: "applied attrs p t = Some t1 \<Longrightarrow> columns t1 = columns t"
proof (induction attrs arbitrary: t)
  case Nil
  then show ?case by simp
next
  case (Cons a attrs)
  obtain n v where a: "a = (n, v)" by (cases a)
  from Cons.prems a obtain t0 where u: "sql_update n v p t = Some t0"
    and r: "applied attrs p t0 = Some t1"
    by (auto split: option.splits)
  from Cons.IH [OF r] sql_update_columns [OF u] show ?case by simp
qed

lemma applied_append:
  "applied (as @ bs) p t = (case applied as p t of None \<Rightarrow> None | Some t1 \<Rightarrow> applied bs p t1)"
  by (induction as arbitrary: t) (auto split: option.splits)

lemma update_columns_durable:
  "update_columns attrs l c = (eo, c1) \<Longrightarrow> durable c1 = durable c"
proof (induction attrs arbitrary: c)
  case Nil
  then show ?case by simp
next
  case (Cons a attrs)
  obtain n v where a: "a = (n, v)" by (cases a)
  show ?case
  proof (cases "posident l")
    case None
    with Cons.prems a show ?thesis by simp
  next
    case (Some p)
    show ?thesis
    proof (cases "sql_update n v p (working c)")
      case None
      with Cons.prems a Some show ?thesis by simp
    next
      case (Some t0)
      with Cons.prems a \<open>posident l = Some p\<close>
      have "update_columns attrs l (c\<lparr>working := t0\<rparr>) = (eo, c1)" by simp
      from Cons.IH [OF this] show ?thesis by simp
    qed
  qed
qed

lemma update_columns_applied:
  assumes "posident l = Some p" and "update_columns attrs l c = (eo, c1)"
  shows "(eo = None \<and> applied attrs p (working c) = Some (working c1))
         \<or> (eo = Some SqliteError \<and> applied attrs p (working c) = None)"
  using assms(2)
proof (induction attrs arbitrary: c)
  case Nil
  then show ?case by simp
next
  case (Cons a attrs)
  obtain n v where a: "a = (n, v)" by (cases a)
  show ?case
  proof (cases "sql_update n v p (working c)")
    case None
    with Cons.prems a assms(1) show ?thesis by simp
  next
    case (Some t0)
    with Cons.prems a assms(1)
    have "update_columns attrs l (c\<lparr>working := t0\<rparr>) = (eo, c1)" by simp
    from Cons.IH [OF this] Some a show ?thesis by simp
  qed
qed

lemma update_columns_unbound:
  assumes "posident l = None" and "update_columns attrs l c = (eo, c1)"
  shows "c1 = c \<and> (eo = None \<and> attrs = [] \<or> eo = Some UnboundLocalError \<and> attrs \<noteq> [])"
  using assms by (cases attrs) auto


lemma update_transaction_result:
  assumes "update_transaction attrs l t = (eo, c)"
  shows "(eo \<noteq> None \<and> durable c = t)
         \<or> (eo = None \<and> (\<exists>p ou. posident l = Some p \<and> osid l = Some ou
               \<and> applied (attrs @ [(''OS_ID'', ou)]) p t = Some (durable c)))"
proof -
  obtain e0 c0 where u: "update_columns attrs l (begin_transaction t) = (e0, c0)"
    by (cases "update_columns attrs l (begin_transaction t)") auto
  from update_columns_durable [OF u] have d0: "durable c0 = t"
    by (simp add: begin_transaction_def)
  show ?thesis
  proof (cases e0)
    case (Some e)
    with assms u d0 show ?thesis by (auto simp: update_transaction_def)
  next
    case None
    show ?thesis
    proof (cases "posident l")
      case np: None
      with assms u d0 \<open>e0 = None\<close> show ?thesis
        by (auto simp: update_transaction_def split: option.splits)
    next
      case (Some p)
      from update_columns_applied [OF Some u] None
      have a: "applied attrs p t = Some (working c0)" by (simp add: begin_transaction_def)
      show ?thesis
      proof (cases "osid l")
        case no: None
        with assms u d0 \<open>e0 = None\<close> show ?thesis by (auto simp: update_transaction_def)
      next
        case so: (Some ou)
        show ?thesis
        proof (cases "sql_update ''OS_ID'' ou p (working c0)")
          case nu: None
          with assms u d0 \<open>e0 = None\<close> Some so show ?thesis
            by (auto simp: update_transaction_def)
        next
          case su: (Some t1)
          with assms u \<open>e0 = None\<close> Some so
          have "eo = None" and "durable c = t1"
            by (auto simp: update_transaction_def commit_transaction_def)
          moreover have "applied (attrs @ [(''OS_ID'', ou)]) p t = Some t1"
            using a su by (simp add: applied_append)
          ultimately show ?thesis using Some so by simp
        qed
      qed
    qed
  qed
qed

lemma update_transaction_fails:
  assumes "update_transaction attrs l t = (eo, c)"
    and "posident l = Some p" and "osid l = Some ou"
    and "applied (attrs @ [(''OS_ID'', ou)]) p t = None"
  shows "eo = Some SqliteError"
proof -
  obtain e0 c0 where u: "update_columns attrs l (begin_transaction t) = (e0, c0)"
    by (cases "update_columns attrs l (begin_transaction t)") auto
  from update_columns_applied [OF assms(2) u]
  consider "e0 = None" "applied attrs p t = Some (working c0)"
    | "e0 = Some SqliteError" "applied attrs p t = None"
    by (auto simp: begin_transaction_def)
  then show ?thesis
  proof cases
    case 1
    with assms(4) have "sql_update ''OS_ID'' ou p (working c0) = None"
      by (simp add: applied_append split: option.splits)
    with assms 1 u show ?thesis by (auto simp: update_transaction_def)
  next
    case 2
    with assms u show ?thesis by (auto simp: update_transaction_def)
  qed
qed

lemma persist_result:
  assumes "persist self attrs l t = (r, t1)"
  shows "t1 = t \<or> (\<exists>p ou. posident l = Some p \<and> osid l = Some ou
               \<and> applied (attrs @ [(''OS_ID'', ou)]) p t = Some t1)"
proof -
  obtain eo c where u: "update_transaction attrs l t = (eo, c)"
    by (cases "update_transaction attrs l t") auto
  have "t1 = durable c"
    using assms u
    by (auto simp: persist_def close_connection_def rollback_transaction_def
        split: option.splits outcome.splits if_splits)
  with update_transaction_result [OF u] show ?thesis by auto
qed

lemma persist_fails:
  assumes "persist self attrs l t = (r, t1)"
    and "posident l = Some p" and "osid l = Some ou"
    and "applied (attrs @ [(''OS_ID'', ou)]) p t = None"
  shows "t1 = t"
  using persist_result [OF assms(1)] assms(2-4) by auto

lemma persist_columns: "persist self attrs l t = (r, t1) \<Longrightarrow> columns t1 = columns t"
  using persist_result [of self attrs l t r t1] by (auto dest: applied_columns)


lemma connection_failed_Raises: "connection_failed self \<noteq> Returns x"
  by (simp add: connection_failed_def split: outcome.splits)

lemma check_os_id_column_result:
  assumes "check_os_id_column self (Some t) = Returns (cols, tc)"
  shows "cols = columns t
         \<and> (tc = t \<and> ''OS_ID'' \<in> set (columns t)
            \<or> ''OS_ID'' \<notin> set (columns t) \<and> add_column ''OS_ID'' t = Some tc)"
  using assms
  by (auto simp: check_os_id_column_def Let_def connection_failed_Raises
      split: option.splits if_splits)

lemma process_os_table:
  assumes run: "process_os e os l s = (r, l1, s1)" and t: "db s = Some t"
  shows "\<exists>tc t2. db s1 = Some t2
           \<and> (tc = t \<and> ''OS_ID'' \<in> set (columns t)
              \<or> ''OS_ID'' \<notin> set (columns t) \<and> add_column ''OS_ID'' t = Some tc
              \<or> tc = t \<and> t2 = t)
           \<and> (t2 = tc
              \<or> (\<exists>xa da p ou. xml_attributes os = Returns xa
                    \<and> database_attributes e (obj s1) (columns t) xa [] = Returns da
                    \<and> applied (da @ [(''OS_ID'', ou)]) p tc = Some t2))"
proof -
  obtain rc lc selfc where c: "classify os l (obj s) = (rc, lc, selfc)"
    by (cases "classify os l (obj s)") auto
  have same: ?thesis if "db s1 = Some t"
    using that by (intro exI [of _ t]) simp
  show ?thesis
  proof (cases rc)
    case (Raises a)
    with run c t show ?thesis by (intro same) (auto simp: process_os_def)
  next
    case (Returns continue)
    show ?thesis
    proof (cases continue)
      case True
      with run c t Returns show ?thesis by (intro same) (auto simp: process_os_def)
    next
      case False
      note nc = Returns False
      show ?thesis
      proof (cases "xml_attributes os")
        case (Raises a)
        with run c t nc show ?thesis by (intro same) (auto simp: process_os_def Let_def)
      next
        case xa: (Returns xa)
        show ?thesis
        proof (cases "check_os_id_column selfc (Some t)")
          case (Raises a)
          with run c t nc xa show ?thesis by (intro same) (auto simp: process_os_def Let_def)
        next
          case ck: (Returns ct)
          obtain cols tc where ct: "ct = (cols, tc)" by (cases ct)
          from check_os_id_column_result [OF ck [unfolded ct]]
          have cols: "cols = columns t"
            and tc: "tc = t \<and> ''OS_ID'' \<in> set (columns t)
                     \<or> ''OS_ID'' \<notin> set (columns t) \<and> add_column ''OS_ID'' t = Some tc"
            by auto
          show ?thesis
          proof (cases "database_attributes e selfc cols xa []")
            case (Raises a)
            with run c t nc xa ck ct have "db s1 = Some tc"
              by (auto simp: process_os_def Let_def)
            with tc show ?thesis by (intro exI [of _ tc]) auto
          next
            case da: (Returns da)
            obtain rp tp where p: "persist selfc da (bind_ids os lc) tc = (rp, tp)"
              by (cases "persist selfc da (bind_ids os lc) tc") auto
            with run c t nc xa ck ct da have s1: "db s1 = Some tp" "obj s1 = selfc"
              by (auto simp: process_os_def Let_def)
            from persist_result [OF p]
            have "tp = tc \<or> (\<exists>p ou. applied (da @ [(''OS_ID'', ou)]) p tc = Some tp)"
              by auto
            then show ?thesis
              using tc s1 xa da cols by (intro exI [of _ tc] exI [of _ tp]) auto
          qed
        qed
      qed
    qed
  qed
qed


subsection \<open>Counting the records\<close>

lemma classify_counted:
  assumes "classify os l self = (Returns b, l1, self1)" and "state_vector self = Some v"
  shows "state_vector self1 = Some (case kind_of os of None \<Rightarrow> v | Some k \<Rightarrow> increment k v)"
  using assms
  by (auto simp: classify_def kind_of_def count_and_continue_def Let_def
      split: option.splits if_splits outcome.splits)

lemma process_os_obj:
  assumes "process_os e os l s = (r, l1, s1)" and "classify os l (obj s) = (rc, lc, selfc)"
  shows "obj s1 = selfc"
  using assms
  by (auto simp: process_os_def Let_def split: outcome.splits if_splits prod.splits)

lemma process_os_counted:
  assumes "process_os e os l s = (Returns (), l1, s1)" and "state_vector (obj s) = Some v"
  shows "state_vector (obj s1) = Some (case kind_of os of None \<Rightarrow> v | Some k \<Rightarrow> increment k v)"
proof -
  obtain rc lc selfc where c: "classify os l (obj s) = (rc, lc, selfc)"
    by (cases "classify os l (obj s)") auto
  from process_os_obj [OF assms(1) c] have o: "obj s1 = selfc" .
  from assms(1) c obtain b where "rc = Returns b"
    by (cases rc) (auto simp: process_os_def)
  with c classify_counted assms(2) o show ?thesis by simp
qed

lemma counter_value_increment:
  "counter_value k (increment j v) = counter_value k v + (if k = j then 1 else 0)"
  by (cases k; cases j) simp_all

lemma total_counter_values:
  "total v = counter_value Uspesne v + counter_value Neplatny v + counter_value Expirovany v
             + counter_value Neexistuje v"
  by (simp add: total_def)

lemma process_records_counted:
  assumes "process_records e oss l s = (Returns (), s1)"
    and "state_vector (obj s) = Some v" and "\<forall>os\<in>set oss. kind_of os \<noteq> None"
  shows "\<exists>v1. state_vector (obj s1) = Some v1
           \<and> (\<forall>k. counter_value k v1
                     = counter_value k v + int (length (filter (\<lambda>os. kind_of os = Some k) oss)))"
  using assms
proof (induction oss arbitrary: l s v)
  case Nil
  then show ?case by simp
next
  case (Cons os oss)
  obtain r0 l0 s0 where p: "process_os e os l s = (r0, l0, s0)"
    by (cases "process_os e os l s") auto
  with Cons.prems(1) have r0: "r0 = Returns ()" and rest: "process_records e oss l0 s0 = (Returns (), s1)"
    by (cases r0; simp)+
  from Cons.prems(3) obtain j where j: "kind_of os = Some j" by auto
  from process_os_counted [OF p [unfolded r0] Cons.prems(2)] j
  have v0: "state_vector (obj s0) = Some (increment j v)" by simp
  from Cons.prems(3) have "\<forall>os\<in>set oss. kind_of os \<noteq> None" by simp
  from Cons.IH [OF rest v0 this] obtain v1 where v1: "state_vector (obj s1) = Some v1"
    and c: "\<forall>k. counter_value k v1
              = counter_value k (increment j v)
                + int (length (filter (\<lambda>os. kind_of os = Some k) oss))"
    by blast
  have "counter_value k v1
          = counter_value k v + int (length (filter (\<lambda>os. kind_of os = Some k) (os # oss)))" for k
    using c j by (simp add: counter_value_increment)
  with v1 show ?case by blast
qed

lemma filter_kinds_length:
  assumes "\<forall>os\<in>set oss. kind_of os \<noteq> None"
  shows "length (filter (\<lambda>os. kind_of os = Some Uspesne) oss)
         + length (filter (\<lambda>os. kind_of os = Some Neplatny) oss)
         + length (filter (\<lambda>os. kind_of os = Some Expirovany) oss)
         + length (filter (\<lambda>os. kind_of os = Some Neexistuje) oss) = length oss"
  using assms
proof (induction oss)
  case Nil
  then show ?case by simp
next
  case (Cons os oss)
  then obtain j where "kind_of os = Some j" by auto
  with Cons show ?case by (cases j) simp_all
qed


subsection \<open>All or nothing, record by record\<close>

text \<open>
  Claim C3, as amended. The transaction spans the updates of one record. The table after
  \<^verbatim>\<open>persist\<close> is the table before it, or the table with every update of the record made, the
  update of \<^verbatim>\<open>OS_ID\<close> last; when one of these updates fails it is the table before it,
  however many updates had gone through. After a whole record the database holds the table
  it held before, with the column \<^verbatim>\<open>OS_ID\<close> added when it was missing, either as it is or
  with every update of this record made: what earlier records and earlier batches have
  committed stays.
\<close>

theorem record_updates_all_or_nothing:
  "(persist self attrs l t = (r, t1) \<longrightarrow>
      t1 = t \<or> (\<exists>p ou. posident l = Some p \<and> osid l = Some ou
                   \<and> applied (attrs @ [(''OS_ID'', ou)]) p t = Some t1))
   \<and> (persist self attrs l t = (r, t1) \<longrightarrow> posident l = Some p \<longrightarrow> osid l = Some ou \<longrightarrow>
        applied (attrs @ [(''OS_ID'', ou)]) p t = None \<longrightarrow> t1 = t)
   \<and> (process_os e os l0 s = (r0, l1, s1) \<longrightarrow> db s = Some t0 \<longrightarrow>
        (\<exists>tc. (tc = t0 \<or> add_column ''OS_ID'' t0 = Some tc)
            \<and> (db s1 = Some tc
               \<or> (\<exists>xa da p' ou' t2. xml_attributes os = Returns xa
                     \<and> database_attributes e (obj s1) (columns t0) xa [] = Returns da
                     \<and> applied (da @ [(''OS_ID'', ou')]) p' tc = Some t2
                     \<and> db s1 = Some t2))))"
proof -
  have a: "t1 = t \<or> (\<exists>p ou. posident l = Some p \<and> osid l = Some ou
                   \<and> applied (attrs @ [(''OS_ID'', ou)]) p t = Some t1)"
    if "persist self attrs l t = (r, t1)"
    using that by (rule persist_result)
  have b: "t1 = t"
    if "persist self attrs l t = (r, t1)" "posident l = Some p" "osid l = Some ou"
      "applied (attrs @ [(''OS_ID'', ou)]) p t = None"
    using that by (rule persist_fails)
  have c: "\<exists>tc. (tc = t0 \<or> add_column ''OS_ID'' t0 = Some tc)
            \<and> (db s1 = Some tc
               \<or> (\<exists>xa da p' ou' t2. xml_attributes os = Returns xa
                     \<and> database_attributes e (obj s1) (columns t0) xa [] = Returns da
                     \<and> applied (da @ [(''OS_ID'', ou')]) p' tc = Some t2
                     \<and> db s1 = Some t2))"
    if "process_os e os l0 s = (r0, l1, s1)" "db s = Some t0"
    using process_os_table [OF that] by blast
  show ?thesis using a b c by blast
qed

text \<open>
  The record of 102 on the table that holds the record of 101: the update of \<^verbatim>\<open>STAV_DAT\<close>
  goes through, the update of \<^verbatim>\<open>DRUH_OS\<close> fails, and the table is left as it was.
\<close>

theorem record_102_rolled_back:
  "persist logged_object [(''STAV_DAT'', Some ''b''), (''DRUH_OS'', Some ''z'')] locals_102 opsub4
     = (Returns (), opsub4)
   \<and> posident locals_102 = Some (Some ''102'') \<and> osid locals_102 = Some (Some ''os-102'')
   \<and> applied [(''STAV_DAT'', Some ''b'')] (Some ''102'') opsub4 \<noteq> None
   \<and> applied ([(''STAV_DAT'', Some ''b''), (''DRUH_OS'', Some ''z'')] @ [(''OS_ID'', Some ''os-102'')])
        (Some ''102'') opsub4 = None
   \<and> db start4 = Some opsub4
   \<and> db (snd (snd (process_os fault_env record_102_fault unbound start4))) = Some opsub4"
proof -
  have ev: "persist logged_object [(''STAV_DAT'', Some ''b''), (''DRUH_OS'', Some ''z'')] locals_102 opsub4
     = (Returns (), opsub4)
   \<and> posident locals_102 = Some (Some ''102'') \<and> osid locals_102 = Some (Some ''os-102'')
   \<and> applied [(''STAV_DAT'', Some ''b'')] (Some ''102'') opsub4 \<noteq> None
   \<and> applied ([(''STAV_DAT'', Some ''b''), (''DRUH_OS'', Some ''z'')] @ [(''OS_ID'', Some ''os-102'')])
        (Some ''102'') opsub4 = None
   \<and> db start4 = Some opsub4
   \<and> db (snd (snd (process_os fault_env record_102_fault unbound start4))) = Some opsub4"
    by code_simp
  then show ?thesis
    using record_updates_all_or_nothing [of logged_object
        "[(''STAV_DAT'', Some ''b''), (''DRUH_OS'', Some ''z'')]" locals_102 opsub4 "Returns ()"
        opsub4 "Some ''102''" "Some ''os-102''" fault_env record_102_fault unbound start4
        "fst (process_os fault_env record_102_fault unbound start4)"
        "fst (snd (process_os fault_env record_102_fault unbound start4))"
        "snd (snd (process_os fault_env record_102_fault unbound start4))" opsub4]
    by simp
qed

text \<open>
  Claim C3 as it stands fails on the code. The batch of 101 and 102 is answered with two
  records. The transaction of the record of 102 fails at its second update and is rolled
  back, row 102 is as before; the updates of the record of 101, of the same batch, are in
  the table.
\<close>

theorem batch_not_one_transaction:
  "db (snd (query_service fault_env ids2 start3)) = Some opsub4
   \<and> rows opsub3 = [[Some ''101'', None, None], [Some ''102'', None, None],
                    [Some ''103'', None, None]]
   \<and> rows opsub4 = [[Some ''101'', Some ''a'', Some ''Alfa'', Some ''os-101''],
                    [Some ''102'', None, None, None], [Some ''103'', None, None, None]]"
  by code_simp


lemma query_service_records:
  assumes "query_service e ids s = (Returns (), s1)"
    and "service e (length (calls s)) (draw_up_xml_request (obj s) ids) = Response (Some root)"
  shows "process_records e (findall_descendants os_tag root) \<lparr>posident = None, osid = None\<rparr>
           (s\<lparr>calls := calls s @ [ids]\<rparr>) = (Returns (), s1)"
proof -
  let ?s0 = "s\<lparr>calls := calls s @ [ids]\<rparr>"
  obtain r0 s0 where p: "process_records e (findall_descendants os_tag root)
      \<lparr>posident = None, osid = None\<rparr> ?s0 = (r0, s0)"
    by (cases "process_records e (findall_descendants os_tag root)
      \<lparr>posident = None, osid = None\<rparr> ?s0") auto
  show ?thesis
  proof (cases r0)
    case (Raises a)
    with assms p show ?thesis
      by (simp add: query_service_def call_service_def save_attributes_to_db_def Let_def)
  next
    case (Returns u)
    with assms p have "s1 = s0"
      by (auto simp: query_service_def call_service_def save_attributes_to_db_def Let_def
          split: option.splits if_splits)
    with p Returns show ?thesis by simp
  qed
qed

text \<open>
  Claim C5, as amended. When a batch is answered with a document whose error markers all have
  one of the three texts, and \<^verbatim>\<open>_query_service\<close> returns, then each of the four counters
  has grown by the number of records of its kind in the document, and their sum has grown by
  the number of records in the document, which is the number of identifiers of the batch
  when the service has answered with one record for each. The counters are advanced while a
  record is classified, before anything is stored, and a failed transaction does not end the
  loop: a record that could not be stored is counted all the same.
\<close>

theorem counters_count_every_record:
  assumes "query_service e ids s = (Returns (), s1)"
    and "service e (length (calls s)) (draw_up_xml_request (obj s) ids) = Response (Some root)"
    and "\<forall>os\<in>set (findall_descendants os_tag root). kind_of os \<noteq> None"
    and "state_vector (obj s) = Some v"
  shows "\<exists>v1. state_vector (obj s1) = Some v1
           \<and> (\<forall>k. counter_value k v1
                  = counter_value k v
                    + int (length (filter (\<lambda>os. kind_of os = Some k)
                                     (findall_descendants os_tag root))))
           \<and> total v1 = total v + int (length (findall_descendants os_tag root))
           \<and> (length (findall_descendants os_tag root) = length ids
                \<longrightarrow> total v1 = total v + int (length ids))"
proof -
  let ?oss = "findall_descendants os_tag root"
  from query_service_records [OF assms(1,2)]
  have p: "process_records e ?oss \<lparr>posident = None, osid = None\<rparr>
             (s\<lparr>calls := calls s @ [ids]\<rparr>) = (Returns (), s1)" .
  have "state_vector (obj (s\<lparr>calls := calls s @ [ids]\<rparr>)) = Some v"
    using assms(4) by simp
  from process_records_counted [OF p this assms(3)]
  obtain v1 where v1: "state_vector (obj s1) = Some v1"
    and c: "\<forall>k. counter_value k v1
              = counter_value k v + int (length (filter (\<lambda>os. kind_of os = Some k) ?oss))"
    by blast
  have "total v1 = total v
          + (int (length (filter (\<lambda>os. kind_of os = Some Uspesne) ?oss))
             + int (length (filter (\<lambda>os. kind_of os = Some Neplatny) ?oss))
             + int (length (filter (\<lambda>os. kind_of os = Some Expirovany) ?oss))
             + int (length (filter (\<lambda>os. kind_of os = Some Neexistuje) ?oss)))"
    using c by (simp add: total_counter_values)
  also have "\<dots> = total v + int (length ?oss)"
    using filter_kinds_length [OF assms(3)] by (simp flip: of_nat_add)
  finally have t: "total v1 = total v + int (length ?oss)" .
  show ?thesis using v1 c t by auto
qed

text \<open>
  Three identifiers answered with a success, an invalid identifier and a success whose
  transaction fails: one invalid identifier and two successes are counted, three in all.
\<close>

theorem counters_of_mixed_response:
  "fst (query_service mixed_env ids3 start3) = Returns ()
   \<and> state_vector (obj start3) = Some zero_counters
   \<and> state_vector (obj (snd (query_service mixed_env ids3 start3)))
       = Some (zero_counters\<lparr>neplatny_identifikator := 1, uspesne_stazeno := 2\<rparr>)
   \<and> total (zero_counters\<lparr>neplatny_identifikator := 1, uspesne_stazeno := 2\<rparr>) = 3
   \<and> db (snd (query_service mixed_env ids3 start3)) = Some opsub4"
proof -
  have ev: "fst (query_service mixed_env ids3 start3) = Returns ()
   \<and> state_vector (obj start3) = Some zero_counters
   \<and> state_vector (obj (snd (query_service mixed_env ids3 start3)))
       = Some (zero_counters\<lparr>neplatny_identifikator := 1, uspesne_stazeno := 2\<rparr>)
   \<and> total (zero_counters\<lparr>neplatny_identifikator := 1, uspesne_stazeno := 2\<rparr>) = 3
   \<and> db (snd (query_service mixed_env ids3 start3)) = Some opsub4"
    by code_simp
  have doc: "service mixed_env (length (calls start3)) (draw_up_xml_request (obj start3) ids3)
     = Response (Some (response_of
       [record_101, error_record ''102'' ''NEPLATNY_IDENTIFIKATOR'',
        success_record ''103'' ''os-103'' [(''druh'', ''z'')]]))"
    by (simp add: mixed_env_def mixed_service_def)
  have known: "\<forall>os\<in>set (findall_descendants os_tag (response_of
       [record_101, error_record ''102'' ''NEPLATNY_IDENTIFIKATOR'',
        success_record ''103'' ''os-103'' [(''druh'', ''z'')]])). kind_of os \<noteq> None"
    by code_simp
  from ev have run: "query_service mixed_env ids3 start3
      = (Returns (), snd (query_service mixed_env ids3 start3))"
    by (metis prod.collapse)
  from ev have sv: "state_vector (obj start3) = Some zero_counters" by simp
  show ?thesis
    using ev counters_count_every_record [OF run doc known sv]
    by simp
qed

text \<open>
  Claim C5 as it stands fails on the code. A batch of two identifiers is answered with a
  document that holds no record: \<^verbatim>\<open>_query_service\<close> returns and no counter has moved. And
  a batch of two is answered with two records, of which the second has an error marker with
  another text: only the first is counted.
\<close>

theorem counters_miss_identifiers:
  "length ids2 = 2
   \<and> fst (query_service stav_env ids2 start3) = Returns ()
   \<and> state_vector (obj (snd (query_service stav_env ids2 start3))) = Some zero_counters
   \<and> total zero_counters = 0
   \<and> fst (query_service unknown_full_env ids2 start3) = Returns ()
   \<and> state_vector (obj (snd (query_service unknown_full_env ids2 start3)))
       = Some (zero_counters\<lparr>uspesne_stazeno := 1\<rparr>)
   \<and> total (zero_counters\<lparr>uspesne_stazeno := 1\<rparr>) = 1"
  by code_simp


subsection \<open>Failures that do not surface\<close>

text \<open>
  Claim C2 at a write fault. Three identifiers in batches of two; the second record of the
  first batch has an attribute whose column the table lacks, so that its \<^verbatim>\<open>UPDATE\<close> raises
  \<^verbatim>\<open>sqlite3.OperationalError\<close>. The handler of lines 341-345 rolls back and does not raise
  again: the run returns, the service is called for the second batch as well, the record of
  103 is stored, and three successes are counted although row 102 was not written.
\<close>

theorem write_fault_is_swallowed:
  "query_requests fault_env ids3 start3
     = (Returns (),
        \<lparr>obj = logged_object\<lparr>state_vector := Some (zero_counters\<lparr>uspesne_stazeno := 3\<rparr>)\<rparr>,
         db = Some \<lparr>columns = [''ID'', ''STAV_DAT'', ''NAZEV'', ''OS_ID''],
                    rows = [[Some ''101'', Some ''a'', Some ''Alfa'', Some ''os-101''],
                            [Some ''102'', None, None, None],
                            [Some ''103'', Some ''c'', Some ''Gama'', Some ''os-103'']]\<rparr>,
         calls = [[Some ''101'', Some ''102''], [Some ''103'']]\<rparr>)"
  by code_simp

text \<open>
  Claim C4 at an error marker with the text \<^verbatim>\<open>JINA_CHYBA\<close>. When the record also carries a
  record id and details, it is stored like a success, nothing is raised and no counter moves
  for it: row 102 is written and one success, that of 101, is counted. When the record
  carries the marker alone, nothing is raised by the classification either; the run ends
  with the \<^verbatim>\<open>TypeError\<close> of line 301, where the details of a success are read.
\<close>

theorem unknown_marker_taken_as_success:
  "query_service unknown_full_env ids2 start3
     = (Returns (),
        \<lparr>obj = logged_object\<lparr>state_vector := Some (zero_counters\<lparr>uspesne_stazeno := 1\<rparr>)\<rparr>,
         db = Some \<lparr>columns = [''ID'', ''STAV_DAT'', ''NAZEV'', ''OS_ID''],
                    rows = [[Some ''101'', Some ''a'', Some ''Alfa'', Some ''os-101''],
                            [Some ''102'', Some ''b'', None, Some ''os-102''],
                            [Some ''103'', None, None, None]]\<rparr>,
         calls = [[Some ''101'', Some ''102'']]\<rparr>)
   \<and> kind_of unknown_record_full = None
   \<and> classify unknown_record_full unbound logged_object
       = (Returns False, unbound\<lparr>posident := Some (Some ''102'')\<rparr>, logged_object)
   \<and> fst (query_service unknown_bare_env ids2 start3) = Raises TypeError
   \<and> state_vector (obj (snd (query_service unknown_bare_env ids2 start3)))
       = Some (zero_counters\<lparr>uspesne_stazeno := 1\<rparr>)"
  by code_simp


subsection \<open>The column of the record id\<close>



















end
